theory Spec2Isabelle
  imports Complex_Main "HOL-Library.Multiset"
begin

section \<open>JavaScript values\<close>

text \<open>
  The service reads two schema-less documents: a task's \<open>inputPayload\<close> (a nullable JSON
  column) and the body of the Agent Card response. Both are JSON values. A number is its
  numeric value; an object is its list of members, read by key.
\<close>

datatype json =
    JNull
  | JBool bool
  | JNum rat
  | JStr string
  | JArr "json list"
  | JObj "(string \<times> json) list"

datatype error_kind = TypeError | RecordNotFound | ValidationError | FetchFailed | SyntaxError

datatype js_error = Thrown error_kind string

fun message :: "js_error \<Rightarrow> string" where
  "message (Thrown k m) = m"

text \<open>
  \<open>v.k\<close> on a value that is not null: the member of an object, \<open>undefined\<close> (None)
  otherwise. The keys this program reads (\<open>traceId\<close>, \<open>agents\<close>, \<open>name\<close>, \<open>role\<close>,
  \<open>goal\<close>) are no built-in property of a string, number, boolean or array.
\<close>

fun js_prop :: "json \<Rightarrow> string \<Rightarrow> json option" where
  "js_prop (JObj kvs) k = map_of kvs k"
| "js_prop v k = None"

text \<open>\<open>v?.k\<close>: optional chaining gives \<open>undefined\<close> on null instead of throwing.\<close>

fun js_opt_prop :: "json \<Rightarrow> string \<Rightarrow> json option" where
  "js_opt_prop JNull k = None"
| "js_opt_prop v k = js_prop v k"

text \<open>\<open>v.k\<close>: reading a property of null throws a TypeError.\<close>

fun js_get :: "json \<Rightarrow> string \<Rightarrow> js_error + json option" where
  "js_get JNull k =
     Inl (Thrown TypeError (''Cannot read properties of null (reading '' @ [CHR 0x27] @ k @ [CHR 0x27] @ '')''))"
| "js_get v k = Inr (js_prop v k)"

text \<open>JavaScript truthiness: \<open>undefined\<close>, null, false, 0 and the empty string are falsy.\<close>

fun truthy :: "json option \<Rightarrow> bool" where
  "truthy None = False"
| "truthy (Some JNull) = False"
| "truthy (Some (JBool b)) = b"
| "truthy (Some (JNum r)) = (r \<noteq> 0)"
| "truthy (Some (JStr s)) = (s \<noteq> [])"
| "truthy (Some (JArr xs)) = True"
| "truthy (Some (JObj kvs)) = True"

text \<open>\<open>a || b\<close> where \<open>b\<close> is a value: \<open>a\<close> when it is truthy, else \<open>b\<close>.\<close>

fun js_or :: "json option \<Rightarrow> json \<Rightarrow> json" where
  "js_or None b = b"
| "js_or (Some a) b = (if truthy (Some a) then a else b)"

text \<open>A non-negative integer inside a template literal: its decimal digits.\<close>

definition digit :: "nat \<Rightarrow> char" where
  "digit d = ''0123456789'' ! d"

fun show_nat :: "nat \<Rightarrow> string" where
  "show_nat n = (if n < 10 then [digit n] else show_nat (n div 10) @ [digit (n mod 10)])"

section \<open>Data model\<close>

datatype task_status = PENDING | APPROVED | REJECTED

record task =
  task_id :: string
  description :: string
  status :: task_status
  inputPayload :: json
  createdAt :: int
  agentId :: string

record agent =
  agent_id :: string
  name :: string
  role :: string
  goal :: string
  systemPrompt :: string

text \<open>A task row loaded with \<open>include: { agent: true }\<close>.\<close>

record task_with_agent =
  tw_task :: task
  tw_agent :: "agent option"

record trace_span =
  span_id :: string
  traceId :: string
  parentId :: "string option"
  service :: string
  operation :: string
  span_status :: string
  durationMs :: int
  metadata :: json
  startedAt :: int

record usage_log =
  ul_agentId :: string
  action :: string
  tokens :: int
  costUsd :: rat

text \<open>The resume payload of line 94 and the message handed to the bus client.\<close>

record resume_payload =
  rp_type :: string
  rp_taskId :: string
  rp_agentId :: string
  rp_traceId :: json

record bus_message =
  msg_data :: resume_payload
  msg_attributes :: "(string \<times> string) list"

record DiscoveryStatus =
  lastRun :: "string option"
  agentsDiscovered :: nat
  agentsSynced :: "string list"
  error :: "string option"

text \<open>
  The state the handlers work on: the Task, Agent, Trace and Usage stores, the messages
  published to the topic, and the process-wide discovery status.
\<close>

record acc_state =
  tasks :: "task list"
  agents :: "agent list"
  spans :: "trace_span list"
  usageLogs :: "usage_log list"
  bus :: "bus_message list"
  discoveryStatus :: DiscoveryStatus

definition initial_discoveryStatus :: DiscoveryStatus where
  "initial_discoveryStatus =
     \<lparr>lastRun = None, agentsDiscovered = 0, agentsSynced = [], error = None\<rparr>"

section \<open>Task queue and zombie detection\<close>

definition ZOMBIE_THRESHOLD_MS :: int where
  "ZOMBIE_THRESHOLD_MS = 5 * 60 * 1000"

definition find_agent :: "agent list \<Rightarrow> string \<Rightarrow> agent option" where
  "find_agent ags aid = find (\<lambda>a. agent_id a = aid) ags"

definition include_agent :: "agent list \<Rightarrow> task \<Rightarrow> task_with_agent" where
  "include_agent ags t = \<lparr>tw_task = t, tw_agent = find_agent ags (agentId t)\<rparr>"

record annotated_task =
  at_row :: task_with_agent
  isZombie :: bool

record tasks_response =
  tr_count :: nat
  tr_tasks :: "annotated_task list"

text \<open>
  \<open>GET /api/tasks\<close>: the PENDING tasks, newest first, each with its \<open>isZombie\<close> flag.
  \<open>now\<close> is what \<open>Date.now()\<close> returns, in milliseconds; \<open>createdAt\<close> is in milliseconds
  too. The store's order among equal \<open>createdAt\<close> is not fixed; the model sorts stably.
\<close>

definition get_api_tasks :: "int \<Rightarrow> acc_state \<Rightarrow> tasks_response" where
  "get_api_tasks now st =
     (let found = sort_key (\<lambda>t. - createdAt t) (filter (\<lambda>t. status t = PENDING) (tasks st));
          rows = map (include_agent (agents st)) found
      in \<lparr>tr_count = length rows,
          tr_tasks = map (\<lambda>r. \<lparr>at_row = r,
                                 isZombie = (now - createdAt (tw_task r) > ZOMBIE_THRESHOLD_MS)\<rparr>) rows\<rparr>)"

record zombies_response =
  zr_count :: nat
  threshold :: string
  zombies :: "task_with_agent list"

text \<open>\<open>GET /api/tasks/zombies\<close>: the PENDING tasks created before the cutoff, oldest first.\<close>

definition get_api_tasks_zombies :: "int \<Rightarrow> acc_state \<Rightarrow> zombies_response" where
  "get_api_tasks_zombies now st =
     (let cutoff = now - ZOMBIE_THRESHOLD_MS;
          found = sort_key createdAt
                    (filter (\<lambda>t. status t = PENDING \<and> createdAt t < cutoff) (tasks st));
          rows = map (include_agent (agents st)) found
      in \<lparr>zr_count = length rows,
          threshold = show_nat (nat (ZOMBIE_THRESHOLD_MS div 60000)) @ '' minutes'',
          zombies = rows\<rparr>)"

section \<open>Task lifecycle: approve and reject\<close>

text \<open>
  What a handler reads from its environment: the clock on entry and when the span data is
  built, the identifier \<open>randomUUID()\<close> returns if it is called, and the values the Trace
  Store gives the columns the handler leaves out (its schema is not part of the sources).
\<close>

record lifecycle_env =
  entered :: int
  recorded :: int
  randomUUID :: string
  new_span_id :: string
  new_span_parentId :: "string option"
  new_span_status :: string
  new_span_startedAt :: int

text \<open>
  \<open>prisma.task.update({ where: { id }, data: { status } })\<close>: the updated row and the new
  table, or nothing when no row has this id (the client then throws).
\<close>

fun task_update :: "string \<Rightarrow> task_status \<Rightarrow> task list \<Rightarrow> (task \<times> task list) option" where
  "task_update tid s [] = None"
| "task_update tid s (t # ts) =
     (if task_id t = tid then Some (t\<lparr>status := s\<rparr>, t\<lparr>status := s\<rparr> # ts)
      else (case task_update tid s ts of
              None \<Rightarrow> None
            | Some (u, ts') \<Rightarrow> Some (u, t # ts')))"

definition not_found :: js_error where
  "not_found = Thrown RecordNotFound ''Record to update not found.''"

text \<open>Line 91 and line 130: \<open>(task.inputPayload as any)?.traceId || randomUUID()\<close>.\<close>

definition derive_traceId :: "json \<Rightarrow> string \<Rightarrow> json" where
  "derive_traceId payload uuid = js_or (js_opt_prop payload ''traceId'') (JStr uuid)"

text \<open>
  The bus client takes a payload and string attributes; it throws on an attribute value
  that is not a string and publishes nothing. The payload is kept structured (its
  serialisation to bytes is not modelled). One topic is modelled, the configured one.
\<close>

fun string_attributes :: "(string \<times> json) list \<Rightarrow> (string \<times> string) list option" where
  "string_attributes [] = Some []"
| "string_attributes ((k, JStr s) # kvs) =
     (case string_attributes kvs of None \<Rightarrow> None | Some r \<Rightarrow> Some ((k, s) # r))"
| "string_attributes ((k, v) # kvs) = None"

definition publishMessage ::
  "resume_payload \<Rightarrow> (string \<times> json) list \<Rightarrow> bus_message list \<Rightarrow> js_error + bus_message list" where
  "publishMessage payload attrs published =
     (case string_attributes attrs of
        None \<Rightarrow> Inl (Thrown TypeError ''All attributes must be in the form of a string.'')
      | Some sattrs \<Rightarrow> Inr (published @ [\<lparr>msg_data = payload, msg_attributes = sattrs\<rparr>]))"

text \<open>
  \<open>prisma.traceSpan.create({ data })\<close> with the five columns the handlers supply. The
  \<open>traceId\<close> column is a string (the trace map of line 264 is keyed by it), so the store
  refuses any other value.
\<close>

record span_data =
  sd_traceId :: json
  sd_service :: string
  sd_operation :: string
  sd_durationMs :: int
  sd_metadata :: json

definition traceSpan_create ::
  "lifecycle_env \<Rightarrow> span_data \<Rightarrow> trace_span list \<Rightarrow> js_error + trace_span list" where
  "traceSpan_create env d stored =
     (case sd_traceId d of
        JStr s \<Rightarrow>
          Inr (stored @
            [\<lparr>span_id = new_span_id env, traceId = s, parentId = new_span_parentId env,
              service = sd_service d, operation = sd_operation d,
              span_status = new_span_status env, durationMs = sd_durationMs d,
              metadata = sd_metadata d, startedAt = new_span_startedAt env\<rparr>])
      | _ \<Rightarrow> Inl (Thrown ValidationError ''Invalid value for argument traceId: expected String.''))"

definition no_agent :: js_error where
  "no_agent = Thrown TypeError (''Cannot read properties of null (reading '' @ [CHR 0x27] @ ''name'' @ [CHR 0x27] @ '')'')"

text \<open>
  Lines 106 to 115 and 132 to 141: the span of the transition. \<open>task.agent.name\<close> is read
  while the data is built, so a task without its agent row throws before the store is
  called.
\<close>

definition record_span ::
  "lifecycle_env \<Rightarrow> string \<Rightarrow> json \<Rightarrow> task_with_agent \<Rightarrow> trace_span list \<Rightarrow> js_error + trace_span list" where
  "record_span env op trace row stored =
     (case tw_agent row of
        None \<Rightarrow> Inl no_agent
      | Some a \<Rightarrow>
          traceSpan_create env
            \<lparr>sd_traceId = trace, sd_service = ''acc'', sd_operation = op,
             sd_durationMs = recorded env - entered env,
             sd_metadata = JObj [(''taskId'', JStr (task_id (tw_task row))),
                                 (''agentName'', JStr (name a))]\<rparr>
            stored)"

text \<open>
  \<open>POST /api/tasks/:id/approve\<close>. The result is the handler's return value or the error
  that fails the request, with the state as the handler left it: a write that was made
  before an error stays made.
\<close>

definition post_api_tasks_approve ::
  "lifecycle_env \<Rightarrow> string \<Rightarrow> acc_state \<Rightarrow> (js_error + task_with_agent) \<times> acc_state" where
  "post_api_tasks_approve env tid st =
     (case task_update tid APPROVED (tasks st) of
        None \<Rightarrow> (Inl not_found, st)
      | Some (t, ts') \<Rightarrow>
          (let st1 = st\<lparr>tasks := ts'\<rparr>;
               row = include_agent (agents st1) t;
               trace = derive_traceId (inputPayload t) (randomUUID env);
               resumePayload = \<lparr>rp_type = ''RESUME'', rp_taskId = task_id t,
                                rp_agentId = agentId t, rp_traceId = trace\<rparr>
           in (case publishMessage resumePayload [(''traceId'', trace)] (bus st1) of
                 Inl e \<Rightarrow> (Inl e, st1)
               | Inr published \<Rightarrow>
                   (let st2 = st1\<lparr>bus := published\<rparr>
                    in (case record_span env ''approve_task'' trace row (spans st2) of
                          Inl e \<Rightarrow> (Inl e, st2)
                        | Inr stored \<Rightarrow> (Inr row, st2\<lparr>spans := stored\<rparr>))))))"

text \<open>\<open>POST /api/tasks/:id/reject\<close>.\<close>

definition post_api_tasks_reject ::
  "lifecycle_env \<Rightarrow> string \<Rightarrow> acc_state \<Rightarrow> (js_error + task_with_agent) \<times> acc_state" where
  "post_api_tasks_reject env tid st =
     (case task_update tid REJECTED (tasks st) of
        None \<Rightarrow> (Inl not_found, st)
      | Some (t, ts') \<Rightarrow>
          (let st1 = st\<lparr>tasks := ts'\<rparr>;
               row = include_agent (agents st1) t;
               trace = derive_traceId (inputPayload t) (randomUUID env)
           in (case record_span env ''reject_task'' trace row (spans st1) of
                 Inl e \<Rightarrow> (Inl e, st1)
               | Inr stored \<Rightarrow> (Inr row, st1\<lparr>spans := stored\<rparr>))))"

section \<open>Agent discovery\<close>

text \<open>
  What one run of \<open>discoverAgents\<close> meets outside: \<open>fetch\<close> throws, or answers with a
  status and a body that \<open>res.json()\<close> parses or throws on; the clock at the end of the
  run; and the id the Agent store gives a new row (by the number of rows it holds).
\<close>

datatype fetch_result = FetchThrows js_error | Response nat "js_error + json"

record discovery_env =
  fetched :: fetch_result
  finished :: string
  new_agent_id :: "nat \<Rightarrow> string"

definition res_ok :: "nat \<Rightarrow> bool" where
  "res_ok code = (200 \<le> code \<and> code \<le> 299)"

fun isArray :: "json option \<Rightarrow> bool" where
  "isArray (Some (JArr xs)) = True"
| "isArray v = False"

fun items :: "json option \<Rightarrow> json list" where
  "items (Some (JArr xs)) = xs"
| "items v = []"

text \<open>
  \<open>prisma.agent.findUnique({ where: { name } })\<close>: \<open>name\<close> is a string column, and the
  store refuses a missing or non-string key.
\<close>

fun agent_findUnique :: "json option \<Rightarrow> agent list \<Rightarrow> js_error + agent option" where
  "agent_findUnique (Some (JStr n)) ags = Inr (find (\<lambda>a. name a = n) ags)"
| "agent_findUnique v ags =
     Inl (Thrown ValidationError ''Invalid value for argument name: expected String.'')"

text \<open>
  Modelled from the spec: the Agent schema that \<open>prisma.agent.create({ data })\<close> checks
  its data against is not part of the sources. Section 3 gives an Agent a \<open>role\<close> and a
  \<open>goal\<close>, and line 157 reads \<open>role\<close> as a string, so both are taken as required string
  columns: the store refuses a missing or non-string value, and appends the row otherwise.
\<close>

fun agent_create ::
  "discovery_env \<Rightarrow> string \<Rightarrow> json option \<Rightarrow> json option \<Rightarrow> string \<Rightarrow> agent list \<Rightarrow> js_error + agent list" where
  "agent_create env n (Some (JStr r)) (Some (JStr g)) prompt ags =
     Inr (ags @ [\<lparr>agent_id = new_agent_id env (length ags), name = n, role = r, goal = g,
                   systemPrompt = prompt\<rparr>])"
| "agent_create env n r g prompt ags =
     Inl (Thrown ValidationError ''Invalid value for argument role or goal: expected String.'')"

text \<open>Line 227: the system prompt of an agent the discovery creates.\<close>

definition auto_prompt :: "string \<Rightarrow> string" where
  "auto_prompt n = ''Auto-registered from Agent Card ('' @ n @ '')''"

text \<open>
  One pass of the loop body, lines 219 to 232, on the Agent store and \<open>agentsSynced\<close>.
  An error leaves both as the iteration found them.
\<close>

definition upsert_agent ::
  "discovery_env \<Rightarrow> json \<Rightarrow> agent list \<times> string list \<Rightarrow> js_error + (agent list \<times> string list)" where
  "upsert_agent env entry s =
     (case js_get entry ''name'' of
        Inl e \<Rightarrow> Inl e
      | Inr nm \<Rightarrow>
          (case agent_findUnique nm (fst s) of
             Inl e \<Rightarrow> Inl e
           | Inr existing \<Rightarrow>
               (case nm of
                  Some (JStr n) \<Rightarrow>
                    (case existing of
                       Some a \<Rightarrow> Inr (fst s, snd s @ [n])
                     | None \<Rightarrow>
                         (case agent_create env n (js_prop entry ''role'') (js_prop entry ''goal'')
                                 (auto_prompt n) (fst s) of
                            Inl e \<Rightarrow> Inl e
                          | Inr ags \<Rightarrow> Inr (ags, snd s @ [n])))
                | _ \<Rightarrow> Inl (Thrown ValidationError ''Invalid value for argument name: expected String.''))))"

fun upsert_loop ::
  "discovery_env \<Rightarrow> json list \<Rightarrow> agent list \<times> string list \<Rightarrow> js_error option \<times> agent list \<times> string list" where
  "upsert_loop env [] s = (None, s)"
| "upsert_loop env (entry # rest) s =
     (case upsert_agent env entry s of
        Inl e \<Rightarrow> (Some e, s)
      | Inr s' \<Rightarrow> upsert_loop env rest s')"

text \<open>The \<open>catch\<close> of line 237: \<open>err.message || 'Unknown error'\<close> goes to \<open>error\<close>.\<close>

definition discovery_catch :: "js_error \<Rightarrow> acc_state \<Rightarrow> acc_state" where
  "discovery_catch err st =
     st\<lparr>discoveryStatus := (discoveryStatus st)
          \<lparr>error := Some (if message err = [] then ''Unknown error'' else message err)\<rparr>\<rparr>"

definition discoverAgents :: "discovery_env \<Rightarrow> acc_state \<Rightarrow> acc_state" where
  "discoverAgents env st =
     (case fetched env of
        FetchThrows e \<Rightarrow> discovery_catch e st
      | Response code body \<Rightarrow>
          if \<not> res_ok code then
            st\<lparr>discoveryStatus := (discoveryStatus st)
                 \<lparr>error := Some (''HTTP '' @ show_nat code @ '' from Agent Card'')\<rparr>\<rparr>
          else
            (case body of
               Inl e \<Rightarrow> discovery_catch e st
             | Inr doc \<Rightarrow>
                 (case js_get doc ''agents'' of
                    Inl e \<Rightarrow> discovery_catch e st
                  | Inr doc_agents \<Rightarrow>
                      if \<not> truthy doc_agents \<or> \<not> isArray doc_agents then
                        st\<lparr>discoveryStatus := (discoveryStatus st)
                             \<lparr>error := Some ''No agents array in Agent Card response''\<rparr>\<rparr>
                      else
                        (let st1 = st\<lparr>discoveryStatus := (discoveryStatus st)
                                        \<lparr>agentsDiscovered := length (items doc_agents),
                                         agentsSynced := [], error := None\<rparr>\<rparr>
                         in (case upsert_loop env (items doc_agents)
                                    (agents st1, agentsSynced (discoveryStatus st1)) of
                               (failure, ags, synced) \<Rightarrow>
                                 (let st2 = st1\<lparr>agents := ags,
                                               discoveryStatus := (discoveryStatus st1)
                                                 \<lparr>agentsSynced := synced\<rparr>\<rparr>
                                  in (case failure of
                                        Some e \<Rightarrow> discovery_catch e st2
                                      | None \<Rightarrow>
                                          st2\<lparr>discoveryStatus := (discoveryStatus st2)
                                                \<lparr>lastRun := Some (finished env)\<rparr>\<rparr>)))))))"

section \<open>Trace correlation\<close>

record span_view =
  sv_id :: string
  sv_parentId :: "string option"
  sv_service :: string
  sv_operation :: string
  sv_status :: string
  sv_durationMs :: int
  sv_metadata :: json
  sv_startedAt :: int

record trace_summary =
  ts_traceId :: string
  rootService :: string
  rootOperation :: string
  services :: "string list"
  spanCount :: nat
  totalDurationMs :: int
  ts_status :: string
  ts_startedAt :: int
  ts_spans :: "span_view list"

record traces_response =
  tc_count :: nat
  traces :: "trace_summary list"

text \<open>
  Line 255, \<open>Math.min(Number(query.limit) || 20, 100)\<close>, on the number the query string
  gives when it is an integer (None when it is absent or not a number).
\<close>

definition trace_limit :: "int option \<Rightarrow> int" where
  "trace_limit q = min (case q of None \<Rightarrow> 20 | Some n \<Rightarrow> if n = 0 then 20 else n) 100"

text \<open>
  Lines 258 to 261: the spans by \<open>startedAt\<close>, newest first, cut to \<open>take\<close> rows; a
  negative \<open>take\<close> counts from the end of the ordered list.
\<close>

definition recent_spans :: "int \<Rightarrow> trace_span list \<Rightarrow> trace_span list" where
  "recent_spans k stored =
     (let ordered = sort_key (\<lambda>s. - startedAt s) stored
      in if 0 \<le> k then take (nat k) ordered
         else drop (length ordered - nat (- k)) ordered)"

text \<open>
  Lines 264 to 268: the trace map keeps its keys in insertion order, so it is a list of
  (traceId, spans) pairs with distinct keys.
\<close>

definition group_span ::
  "(string \<times> trace_span list) list \<Rightarrow> trace_span \<Rightarrow> (string \<times> trace_span list) list" where
  "group_span traceMap sp =
     (let m = (if map_of traceMap (traceId sp) = None
               then traceMap @ [(traceId sp, [])] else traceMap)
      in map (\<lambda>(k, v). if k = traceId sp then (k, v @ [sp]) else (k, v)) m)"

definition group_spans :: "trace_span list \<Rightarrow> (string \<times> trace_span list) list" where
  "group_spans recentSpans = foldl group_span [] recentSpans"

text \<open>\<open>xs.slice(0, e)\<close>: a negative end counts from the end of the list.\<close>

definition slice0 :: "int \<Rightarrow> 'a list \<Rightarrow> 'a list" where
  "slice0 e xs = (if 0 \<le> e then take (nat e) xs else take (length xs - nat (- e)) xs)"

text \<open>\<open>[...new Set(xs)]\<close>: each value once, in the order of first appearance.\<close>

fun uniq :: "'a list \<Rightarrow> 'a list" where
  "uniq [] = []"
| "uniq (x # xs) = x # removeAll x (uniq xs)"

text \<open>\<open>!s.parentId\<close>: a null and an empty parent id are both falsy.\<close>

fun no_parent :: "string option \<Rightarrow> bool" where
  "no_parent None = True"
| "no_parent (Some p) = (p = [])"

text \<open>Line 274: \<open>spans.find(s => !s.parentId) || spans[0]\<close>; \<open>undefined\<close> is None.\<close>

definition find_root :: "trace_span list \<Rightarrow> trace_span option" where
  "find_root ss =
     (case find (\<lambda>s. no_parent (parentId s)) ss of
        Some r \<Rightarrow> Some r
      | None \<Rightarrow> (case ss of [] \<Rightarrow> None | s # rest \<Rightarrow> Some s))"

definition view :: "trace_span \<Rightarrow> span_view" where
  "view s =
     \<lparr>sv_id = span_id s, sv_parentId = parentId s, sv_service = service s,
      sv_operation = operation s, sv_status = span_status s, sv_durationMs = durationMs s,
      sv_metadata = metadata s, sv_startedAt = startedAt s\<rparr>"

definition no_root :: js_error where
  "no_root = Thrown TypeError (''Cannot read properties of undefined (reading '' @ [CHR 0x27] @ ''service'' @ [CHR 0x27] @ '')'')"

text \<open>Lines 273 to 296: the summary of one trace.\<close>

definition summarise :: "string \<times> trace_span list \<Rightarrow> js_error + trace_summary" where
  "summarise entry =
     (case entry of (tid, ss) \<Rightarrow>
        (case find_root ss of
           None \<Rightarrow> Inl no_root
         | Some rt \<Rightarrow>
             (let hasError = list_ex (\<lambda>s. span_status s = ''ERROR'') ss
              in Inr \<lparr>ts_traceId = tid, rootService = service rt,
                      rootOperation = operation rt,
                      services = uniq (map service ss), spanCount = length ss,
                      totalDurationMs = durationMs rt,
                      ts_status = (if hasError then ''ERROR'' else ''OK''),
                      ts_startedAt = startedAt rt, ts_spans = map view ss\<rparr>)))"

text \<open>\<open>Array.map\<close> with a callback that may throw: the first error ends it.\<close>

fun collect :: "('e + 'a) list \<Rightarrow> 'e + 'a list" where
  "collect [] = Inr []"
| "collect (Inl e # rs) = Inl e"
| "collect (Inr x # rs) = (case collect rs of Inl e \<Rightarrow> Inl e | Inr xs \<Rightarrow> Inr (x # xs))"

text \<open>Lines 263 to 297, from the fetched window to the summaries.\<close>

definition trace_summaries :: "int \<Rightarrow> trace_span list \<Rightarrow> js_error + trace_summary list" where
  "trace_summaries limit recentSpans =
     collect (map summarise (slice0 limit (group_spans recentSpans)))"

text \<open>\<open>GET /api/traces\<close>.\<close>

definition get_api_traces :: "int option \<Rightarrow> acc_state \<Rightarrow> js_error + traces_response" where
  "get_api_traces q st =
     (let limit = trace_limit q;
          recentSpans = recent_spans (limit * 5) (spans st)
      in (case trace_summaries limit recentSpans of
            Inl e \<Rightarrow> Inl e
          | Inr found \<Rightarrow> Inr \<lparr>tc_count = length found, traces = found\<rparr>))"

section \<open>Reconciliation\<close>

record ingress_counts =
  totalReceived :: int
  totalPublished :: int
  totalFailed :: int

record egress_counts =
  totalTasks :: int
  approved :: int
  rejected :: int
  pending :: int

record reconciliation_section =
  totalIngress :: int
  totalResolved :: int
  gap :: int
  recon_status :: string

record cost_section =
  totalTokens :: int
  totalCostUsd :: rat

record reconciliation_report =
  ingress :: ingress_counts
  egress :: egress_counts
  reconciliation :: reconciliation_section
  cost :: cost_section

definition count_status :: "task_status \<Rightarrow> task list \<Rightarrow> int" where
  "count_status s ts = int (length (filter (\<lambda>t. status t = s) ts))"

text \<open>Rounding to four decimals as line 167 does it, on exact amounts.\<close>

definition round4 :: "rat \<Rightarrow> rat" where
  "round4 x = of_int \<lfloor>x * 10000 + 1 / 2\<rfloor> / 10000"

text \<open>
  Modelled from the spec: the handler of \<open>GET /api/reconciliation\<close> is missing from the
  sources; only its caller, the end-to-end scenario, and the response type declared there
  are present. The report follows section 4.4: the ingress counts come from the Ingress
  collaborator, the egress counts from the Task Store, the cost from the Usage Log. The
  rule that names the status from the gap is left to the implementer by the spec, so it
  is a parameter.
\<close>

definition get_api_reconciliation ::
  "(int \<Rightarrow> string) \<Rightarrow> ingress_counts \<Rightarrow> acc_state \<Rightarrow> reconciliation_report" where
  "get_api_reconciliation label ing st =
     (let eg = \<lparr>totalTasks = int (length (tasks st)),
                approved = count_status APPROVED (tasks st),
                rejected = count_status REJECTED (tasks st),
                pending = count_status PENDING (tasks st)\<rparr>;
          resolved = approved eg + rejected eg;
          g = totalReceived ing - resolved
      in \<lparr>ingress = ing, egress = eg,
          reconciliation = \<lparr>totalIngress = totalReceived ing, totalResolved = resolved,
                            gap = g, recon_status = label g\<rparr>,
          cost = \<lparr>totalTokens = sum_list (map tokens (usageLogs st)),
                  totalCostUsd = round4 (sum_list (map costUsd (usageLogs st)))\<rparr>\<rparr>)"

section \<open>The operations of the service\<close>

text \<open>
  One request to the service, or one run of the discovery loop, with what it reads from
  outside. The GET handlers compute their response from the state and write nothing.
\<close>

datatype request =
    GetHealth
  | GetAgents
  | GetTasks int
  | GetTasksZombies int
  | PostApprove lifecycle_env string
  | PostReject lifecycle_env string
  | GetUsage
  | GetDiscovery
  | GetTraces "int option"
  | RunDiscovery discovery_env

fun handle :: "request \<Rightarrow> acc_state \<Rightarrow> acc_state" where
  "handle (PostApprove env tid) st = snd (post_api_tasks_approve env tid st)"
| "handle (PostReject env tid) st = snd (post_api_tasks_reject env tid st)"
| "handle (RunDiscovery env) st = discoverAgents env st"
| "handle r st = st"

fun run :: "request list \<Rightarrow> acc_state \<Rightarrow> acc_state" where
  "run [] st = st"
| "run (r # rs) st = run rs (handle r st)"

definition status_of :: "acc_state \<Rightarrow> string \<Rightarrow> task_status option" where
  "status_of st tid = map_option status (find (\<lambda>t. task_id t = tid) (tasks st))"

fun is_transition :: "request \<Rightarrow> bool" where
  "is_transition (PostApprove env tid) = True"
| "is_transition (PostReject env tid) = True"
| "is_transition r = False"

section \<open>Notions used in the proofs about discovery\<close>

text \<open>The name an entry of the Agent Card carries, when it is a string.\<close>

definition entry_name :: "json \<Rightarrow> string option" where
  "entry_name entry =
     (case js_get entry ''name'' of Inr (Some (JStr n)) \<Rightarrow> Some n | _ \<Rightarrow> None)"

text \<open>
  The agents array of a run that gets as far as line 214: a successful response whose body
  parses to a document with an array under \<open>agents\<close>. Every other run ends before.
\<close>

fun reaches_loop :: "fetch_result \<Rightarrow> json list option" where
  "reaches_loop (Response code (Inr doc)) =
     (if res_ok code then
        (case js_get doc ''agents'' of
           Inr (Some (JArr es)) \<Rightarrow> Some es
         | _ \<Rightarrow> None)
      else None)"
| "reaches_loop f = None"

section \<open>Notions used in the proofs about traces\<close>

text \<open>
  The summary of a trace with at least one span, where line 274 always finds a root: the
  first span whose parent id is null or empty, else the first span.
\<close>

definition summary_of :: "string \<times> trace_span list \<Rightarrow> trace_summary" where
  "summary_of entry =
     (case entry of (tid, ss) \<Rightarrow>
        (let rt = (case find (\<lambda>s. parentId s = None \<or> parentId s = Some []) ss of
                      Some r \<Rightarrow> r | None \<Rightarrow> hd ss)
         in \<lparr>ts_traceId = tid, rootService = service rt, rootOperation = operation rt,
             services = uniq (map service ss), spanCount = length ss,
             totalDurationMs = durationMs rt,
             ts_status = (if \<exists>s \<in> set ss. span_status s = ''ERROR'' then ''ERROR'' else ''OK''),
             ts_startedAt = startedAt rt, ts_spans = map view ss\<rparr>))"

section \<open>A seeded store\<close>

text \<open>
  The store the seed scripts leave, with one agent and four tasks, read at
  \<open>now = 1000000\<close>: \<open>t1\<close> is exactly five minutes old, \<open>t2\<close> one second older, \<open>t3\<close> is
  already approved, and \<open>t4\<close> carries an empty \<open>traceId\<close>.
\<close>

definition agent_A :: agent where
  "agent_A = \<lparr>agent_id = ''a1'', name = ''Analyst'', role = ''analysis'', goal = ''review'',
               systemPrompt = ''seeded''\<rparr>"

definition task_at :: "string \<Rightarrow> task_status \<Rightarrow> json \<Rightarrow> int \<Rightarrow> task" where
  "task_at tid s p c =
     \<lparr>task_id = tid, description = ''seeded'', status = s, inputPayload = p, createdAt = c,
      agentId = ''a1''\<rparr>"

definition example_state :: acc_state where
  "example_state =
     \<lparr>tasks = [task_at ''t1'' PENDING
                  (JObj [(''source'', JStr ''github''), (''traceId'', JStr ''trace-7'')]) 700000,
               task_at ''t2'' PENDING JNull 699000,
               task_at ''t3'' APPROVED JNull 100000,
               task_at ''t4'' PENDING (JObj [(''traceId'', JStr [])]) 400000],
      agents = [agent_A], spans = [], usageLogs = [], bus = [],
      discoveryStatus = initial_discoveryStatus\<rparr>"

definition example_env :: lifecycle_env where
  "example_env =
     \<lparr>entered = 1000000, recorded = 1000012, randomUUID = ''9b2e'', new_span_id = ''s1'',
      new_span_parentId = None, new_span_status = ''OK'', new_span_startedAt = 1000013\<rparr>"

text \<open>
  An Agent Card with the given entries, answered with status 200, and the store after a
  first successful discovery that found the seeded agent.
\<close>

definition card_entry :: "string \<Rightarrow> json" where
  "card_entry n =
     JObj [(''id'', JStr n), (''name'', JStr n), (''role'', JStr ''worker''),
           (''goal'', JStr ''assist''), (''tools'', JArr [])]"

definition example_discovery :: "json list \<Rightarrow> string \<Rightarrow> discovery_env" where
  "example_discovery entries stamp =
     \<lparr>fetched = Response 200 (Inr (JObj [(''agents'', JArr entries)])), finished = stamp,
      new_agent_id = (\<lambda>k. ''agent-'' @ show_nat k)\<rparr>"

definition synced_state :: acc_state where
  "synced_state =
     discoverAgents (example_discovery [card_entry ''Analyst''] ''2026-01-01T00:00:00.000Z'')
       example_state"

text \<open>
  A window of three spans: trace \<open>T\<close> has a span with an empty parent id before its span
  with a null one, which failed; trace \<open>U\<close> has a single span, with a parent.
\<close>

definition span_at :: "string \<Rightarrow> string \<Rightarrow> string option \<Rightarrow> string \<Rightarrow> string \<Rightarrow> int \<Rightarrow> trace_span" where
  "span_at sid tid par op st ms =
     \<lparr>span_id = sid, traceId = tid, parentId = par, service = ''svc-'' @ sid, operation = op,
      span_status = st, durationMs = ms, metadata = JNull, startedAt = 1000000 - ms\<rparr>"

definition example_window :: "trace_span list" where
  "example_window =
     [span_at ''s1'' ''T'' (Some []) ''first'' ''OK'' 5,
      span_at ''s2'' ''T'' None ''second'' ''ERROR'' 40,
      span_at ''s3'' ''U'' (Some ''s9'') ''third'' ''OK'' 7]"

lemmas example_defs = example_state_def task_at_def agent_A_def example_env_def
  initial_discoveryStatus_def

section \<open>Properties of the task queue and the zombie list\<close>

lemma tasks_rows:
  "map (tw_task \<circ> at_row) (tr_tasks (get_api_tasks now st)) =
     sort_key (\<lambda>t. - createdAt t) (filter (\<lambda>t. status t = PENDING) (tasks st))"
  by (simp add: get_api_tasks_def Let_def include_agent_def comp_def)

text \<open>
  C7. Every task that \<open>GET /api/tasks\<close> returns is flagged \<open>isZombie\<close> exactly when
  \<open>now - createdAt\<close> is more than five minutes: at exactly five minutes the flag is false,
  at five minutes and one second it is true. The flag filters nothing: the tasks returned
  are the PENDING tasks of the store, each once.
\<close>

theorem zombie_annotation:
  "(\<forall>a \<in> set (tr_tasks (get_api_tasks now st)).
      (isZombie a \<longleftrightarrow> now - createdAt (tw_task (at_row a)) > 5 * 60 * 1000)
      \<and> (now - createdAt (tw_task (at_row a)) = 5 * 60 * 1000 \<longrightarrow> \<not> isZombie a)
      \<and> (now - createdAt (tw_task (at_row a)) = 5 * 60 * 1000 + 1000 \<longrightarrow> isZombie a))
   \<and> mset (map (tw_task \<circ> at_row) (tr_tasks (get_api_tasks now st)))
       = mset (filter (\<lambda>t. status t = PENDING) (tasks st))
   \<and> tr_count (get_api_tasks now st) = length (filter (\<lambda>t. status t = PENDING) (tasks st))"
proof (intro conjI ballI)
  fix a assume "a \<in> set (tr_tasks (get_api_tasks now st))"
  then have z: "isZombie a \<longleftrightarrow> now - createdAt (tw_task (at_row a)) > 5 * 60 * 1000"
    by (auto simp: get_api_tasks_def Let_def ZOMBIE_THRESHOLD_MS_def)
  show "isZombie a \<longleftrightarrow> now - createdAt (tw_task (at_row a)) > 5 * 60 * 1000"
    by (rule z)
  show "now - createdAt (tw_task (at_row a)) = 5 * 60 * 1000 \<longrightarrow> \<not> isZombie a"
    using z by simp
  show "now - createdAt (tw_task (at_row a)) = 5 * 60 * 1000 + 1000 \<longrightarrow> isZombie a"
    using z by simp
next
  show "mset (map (tw_task \<circ> at_row) (tr_tasks (get_api_tasks now st)))
       = mset (filter (\<lambda>t. status t = PENDING) (tasks st))"
    by (simp only: tasks_rows mset_sort)
next
  show "tr_count (get_api_tasks now st) = length (filter (\<lambda>t. status t = PENDING) (tasks st))"
    by (simp add: get_api_tasks_def Let_def)
qed

lemma example_queue:
  "map (\<lambda>a. (task_id (tw_task (at_row a)), isZombie a)) (tr_tasks (get_api_tasks 1000000 example_state))
     = [(''t1'', False), (''t2'', True), (''t4'', True)]"
  by (simp add: get_api_tasks_def example_defs include_agent_def find_agent_def
      ZOMBIE_THRESHOLD_MS_def)

theorem zombie_annotation_witness:
  "tr_tasks (get_api_tasks 1000000 example_state) ! 0
      \<in> set (tr_tasks (get_api_tasks 1000000 example_state))
   \<and> 1000000 - createdAt (tw_task (at_row (tr_tasks (get_api_tasks 1000000 example_state) ! 0)))
       = 5 * 60 * 1000
   \<and> \<not> isZombie (tr_tasks (get_api_tasks 1000000 example_state) ! 0)
   \<and> tr_tasks (get_api_tasks 1000000 example_state) ! 1
      \<in> set (tr_tasks (get_api_tasks 1000000 example_state))
   \<and> 1000000 - createdAt (tw_task (at_row (tr_tasks (get_api_tasks 1000000 example_state) ! 1)))
       = 5 * 60 * 1000 + 1000
   \<and> isZombie (tr_tasks (get_api_tasks 1000000 example_state) ! 1)"
proof -
  let ?out = "tr_tasks (get_api_tasks 1000000 example_state)"
  have len: "length ?out = 3"
    using arg_cong[OF example_queue, of length] by simp
  have m0: "?out ! 0 \<in> set ?out" and m1: "?out ! 1 \<in> set ?out"
    using len by simp_all
  have ages: "map (\<lambda>a. createdAt (tw_task (at_row a))) ?out = [700000, 699000, 400000]"
    by (simp add: get_api_tasks_def example_defs include_agent_def find_agent_def)
  have a0: "createdAt (tw_task (at_row (?out ! 0))) = 700000"
    using arg_cong[OF ages, of "\<lambda>xs. xs ! 0"] len by simp
  have a1: "createdAt (tw_task (at_row (?out ! 1))) = 699000"
    using arg_cong[OF ages, of "\<lambda>xs. xs ! 1"] len by simp
  from zombie_annotation[of 1000000 example_state] m0 m1 a0 a1 show ?thesis
    by simp
qed

lemma zombie_rows:
  "map tw_task (zombies (get_api_tasks_zombies now st)) =
     sort_key createdAt
       (filter (\<lambda>t. status t = PENDING \<and> createdAt t < now - 5 * 60 * 1000) (tasks st))"
  by (simp add: get_api_tasks_zombies_def Let_def include_agent_def comp_def
      ZOMBIE_THRESHOLD_MS_def)

text \<open>
  C8. \<open>GET /api/tasks/zombies\<close> returns exactly the tasks that are PENDING and were created
  strictly before \<open>now\<close> minus five minutes, each once, never a task of another status,
  sorted by ascending \<open>createdAt\<close>.
\<close>

theorem zombies_exact_sorted:
  "mset (map tw_task (zombies (get_api_tasks_zombies now st)))
     = mset (filter (\<lambda>t. status t = PENDING \<and> createdAt t < now - 5 * 60 * 1000) (tasks st))
   \<and> (\<forall>z \<in> set (zombies (get_api_tasks_zombies now st)). status (tw_task z) = PENDING)
   \<and> sorted (map createdAt (map tw_task (zombies (get_api_tasks_zombies now st))))"
proof (intro conjI ballI)
  show "mset (map tw_task (zombies (get_api_tasks_zombies now st)))
     = mset (filter (\<lambda>t. status t = PENDING \<and> createdAt t < now - 5 * 60 * 1000) (tasks st))"
    by (simp only: zombie_rows mset_sort)
next
  fix z assume "z \<in> set (zombies (get_api_tasks_zombies now st))"
  then have "tw_task z \<in> set (map tw_task (zombies (get_api_tasks_zombies now st)))"
    by simp
  then show "status (tw_task z) = PENDING"
    unfolding zombie_rows by simp
next
  show "sorted (map createdAt (map tw_task (zombies (get_api_tasks_zombies now st))))"
    unfolding zombie_rows by (rule sorted_sort_key)
qed

lemma example_zombies:
  "map (task_id \<circ> tw_task) (zombies (get_api_tasks_zombies 1000000 example_state))
     = [''t4'', ''t2'']"
  by (simp add: get_api_tasks_zombies_def example_defs include_agent_def find_agent_def
      ZOMBIE_THRESHOLD_MS_def)

theorem zombies_exact_sorted_witness:
  "zombies (get_api_tasks_zombies 1000000 example_state) ! 0
      \<in> set (zombies (get_api_tasks_zombies 1000000 example_state))
   \<and> task_id (tw_task (zombies (get_api_tasks_zombies 1000000 example_state) ! 0)) = ''t4''
   \<and> status (tw_task (zombies (get_api_tasks_zombies 1000000 example_state) ! 0)) = PENDING"
proof -
  let ?out = "zombies (get_api_tasks_zombies 1000000 example_state)"
  have len: "length ?out = 2"
    using arg_cong[OF example_zombies, of length] by simp
  have m0: "?out ! 0 \<in> set ?out"
    using len by simp
  have i0: "task_id (tw_task (?out ! 0)) = ''t4''"
    using arg_cong[OF example_zombies, of "\<lambda>xs. xs ! 0"] len by simp
  from zombies_exact_sorted[of 1000000 example_state] m0 i0 show ?thesis
    by blast
qed

section \<open>Properties of the reconciliation report\<close>

text \<open>
  C2. For every store state and every set of ingress counts, the reconciliation section of
  the report has \<open>totalIngress\<close> equal to the ingress \<open>totalReceived\<close>, \<open>totalResolved\<close>
  equal to the approved plus the rejected count of the egress section, and \<open>gap\<close> equal to
  their difference; the approved and rejected counts are the numbers of APPROVED and
  REJECTED tasks in the Task Store.
\<close>

theorem reconciliation_gap:
  "totalIngress (reconciliation (get_api_reconciliation label ing st))
     = totalReceived (ingress (get_api_reconciliation label ing st))
   \<and> totalResolved (reconciliation (get_api_reconciliation label ing st))
     = approved (egress (get_api_reconciliation label ing st))
       + rejected (egress (get_api_reconciliation label ing st))
   \<and> gap (reconciliation (get_api_reconciliation label ing st))
     = totalIngress (reconciliation (get_api_reconciliation label ing st))
       - totalResolved (reconciliation (get_api_reconciliation label ing st))
   \<and> approved (egress (get_api_reconciliation label ing st))
     = int (length (filter (\<lambda>t. status t = APPROVED) (tasks st)))
   \<and> rejected (egress (get_api_reconciliation label ing st))
     = int (length (filter (\<lambda>t. status t = REJECTED) (tasks st)))"
  by (simp add: get_api_reconciliation_def Let_def count_status_def)

section \<open>Properties of the task lifecycle\<close>

lemma task_update_None:
  "task_update tid s ts = None \<longleftrightarrow> find (\<lambda>t. task_id t = tid) ts = None"
  by (induction ts) (auto split: option.splits)

lemma task_update_Some:
  "find (\<lambda>t. task_id t = tid) ts = Some t0 \<Longrightarrow>
     \<exists>ts'. task_update tid s ts = Some (t0\<lparr>status := s\<rparr>, ts')
       \<and> (\<forall>x. find (\<lambda>t. task_id t = x) ts' =
               (if x = tid then Some (t0\<lparr>status := s\<rparr>) else find (\<lambda>t. task_id t = x) ts))"
proof (induction ts)
  case Nil
  then show ?case by simp
next
  case (Cons t ts)
  show ?case
  proof (cases "task_id t = tid")
    case True
    with Cons.prems show ?thesis by auto
  next
    case False
    with Cons.prems have "find (\<lambda>t. task_id t = tid) ts = Some t0" by simp
    from Cons.IH[OF this] obtain ts' where
      u: "task_update tid s ts = Some (t0\<lparr>status := s\<rparr>, ts')" and
      f: "\<forall>x. find (\<lambda>t. task_id t = x) ts' =
               (if x = tid then Some (t0\<lparr>status := s\<rparr>) else find (\<lambda>t. task_id t = x) ts)"
      by blast
    from False u f show ?thesis by auto
  qed
qed

lemma found_id: "find (\<lambda>t. task_id t = tid) ts = Some t0 \<Longrightarrow> task_id t0 = tid"
  by (auto simp: find_Some_iff)

lemma publish_traceId:
  "publishMessage payload [(''traceId'', trace)] published =
     (case trace of
        JStr s \<Rightarrow> Inr (published @ [\<lparr>msg_data = payload, msg_attributes = [(''traceId'', s)]\<rparr>])
      | _ \<Rightarrow> Inl (Thrown TypeError ''All attributes must be in the form of a string.''))"
  by (cases trace) (simp_all add: publishMessage_def)

lemma record_span_eval:
  "record_span env op trace row stored =
     (case tw_agent row of
        None \<Rightarrow> Inl no_agent
      | Some a \<Rightarrow>
          (case trace of
             JStr s \<Rightarrow>
               Inr (stored @
                 [\<lparr>span_id = new_span_id env, traceId = s, parentId = new_span_parentId env,
                   service = ''acc'', operation = op, span_status = new_span_status env,
                   durationMs = recorded env - entered env,
                   metadata = JObj [(''taskId'', JStr (task_id (tw_task row))),
                                    (''agentName'', JStr (name a))],
                   startedAt = new_span_startedAt env\<rparr>])
           | _ \<Rightarrow> Inl (Thrown ValidationError
                        ''Invalid value for argument traceId: expected String.'')))"
  by (cases trace) (simp_all add: record_span_def traceSpan_create_def split: option.splits)

lemma approve_unfold:
  assumes "task_update tid APPROVED (tasks st) = Some (t, ts')"
  shows "post_api_tasks_approve env tid st =
     (case derive_traceId (inputPayload t) (randomUUID env) of
        JStr s \<Rightarrow>
          (let published = bus st @
                 [\<lparr>msg_data = \<lparr>rp_type = ''RESUME'', rp_taskId = task_id t,
                                 rp_agentId = agentId t, rp_traceId = JStr s\<rparr>,
                   msg_attributes = [(''traceId'', s)]\<rparr>]
           in (case find_agent (agents st) (agentId t) of
                 None \<Rightarrow> (Inl no_agent, st\<lparr>tasks := ts', bus := published\<rparr>)
               | Some a \<Rightarrow>
                   (Inr \<lparr>tw_task = t, tw_agent = Some a\<rparr>,
                    st\<lparr>tasks := ts', bus := published,
                       spans := spans st @
                         [\<lparr>span_id = new_span_id env, traceId = s,
                           parentId = new_span_parentId env,
                           service = ''acc'', operation = ''approve_task'',
                           span_status = new_span_status env,
                           durationMs = recorded env - entered env,
                           metadata = JObj [(''taskId'', JStr (task_id t)),
                                            (''agentName'', JStr (name a))],
                           startedAt = new_span_startedAt env\<rparr>]\<rparr>)))
      | _ \<Rightarrow> (Inl (Thrown TypeError ''All attributes must be in the form of a string.''),
              st\<lparr>tasks := ts'\<rparr>))"
  using assms
  by (cases "derive_traceId (inputPayload t) (randomUUID env)")
     (simp_all add: post_api_tasks_approve_def Let_def publish_traceId record_span_eval
        include_agent_def split: option.splits)

lemma reject_unfold:
  assumes "task_update tid REJECTED (tasks st) = Some (t, ts')"
  shows "post_api_tasks_reject env tid st =
     (case find_agent (agents st) (agentId t) of
        None \<Rightarrow> (Inl no_agent, st\<lparr>tasks := ts'\<rparr>)
      | Some a \<Rightarrow>
          (case derive_traceId (inputPayload t) (randomUUID env) of
             JStr s \<Rightarrow>
               (Inr \<lparr>tw_task = t, tw_agent = Some a\<rparr>,
                st\<lparr>tasks := ts',
                   spans := spans st @
                     [\<lparr>span_id = new_span_id env, traceId = s,
                       parentId = new_span_parentId env,
                       service = ''acc'', operation = ''reject_task'',
                       span_status = new_span_status env,
                       durationMs = recorded env - entered env,
                       metadata = JObj [(''taskId'', JStr (task_id t)),
                                        (''agentName'', JStr (name a))],
                       startedAt = new_span_startedAt env\<rparr>]\<rparr>)
           | _ \<Rightarrow> (Inl (Thrown ValidationError
                           ''Invalid value for argument traceId: expected String.''),
                   st\<lparr>tasks := ts'\<rparr>)))"
  using assms
  by (cases "derive_traceId (inputPayload t) (randomUUID env)")
     (simp_all add: post_api_tasks_reject_def Let_def record_span_eval
        include_agent_def split: option.splits)

lemma approve_tasks:
  "tasks (snd (post_api_tasks_approve env tid st)) =
     (case task_update tid APPROVED (tasks st) of None \<Rightarrow> tasks st | Some (t, ts') \<Rightarrow> ts')"
  by (simp add: post_api_tasks_approve_def Let_def split: option.splits sum.splits prod.splits)

lemma reject_tasks:
  "tasks (snd (post_api_tasks_reject env tid st)) =
     (case task_update tid REJECTED (tasks st) of None \<Rightarrow> tasks st | Some (t, ts') \<Rightarrow> ts')"
  by (simp add: post_api_tasks_reject_def Let_def split: option.splits sum.splits prod.splits)

lemma discover_tasks: "tasks (discoverAgents env st) = tasks st"
  by (simp add: discoverAgents_def discovery_catch_def Let_def
      split: fetch_result.splits sum.splits option.splits prod.splits)

lemma discover_status: "status_of (discoverAgents env st) x = status_of st x"
  by (simp add: status_of_def discover_tasks)

lemma approve_status:
  "status_of (snd (post_api_tasks_approve env tid st)) x =
     (if x = tid \<and> status_of st tid \<noteq> None then Some APPROVED else status_of st x)"
proof (cases "find (\<lambda>t. task_id t = tid) (tasks st)")
  case None
  then have "task_update tid APPROVED (tasks st) = None"
    by (simp add: task_update_None)
  with None show ?thesis
    by (simp add: status_of_def approve_tasks)
next
  case (Some t0)
  from task_update_Some[OF Some, of APPROVED] obtain ts' where
    "task_update tid APPROVED (tasks st) = Some (t0\<lparr>status := APPROVED\<rparr>, ts')"
    "\<forall>x. find (\<lambda>t. task_id t = x) ts' =
       (if x = tid then Some (t0\<lparr>status := APPROVED\<rparr>)
        else find (\<lambda>t. task_id t = x) (tasks st))"
    by blast
  with Some show ?thesis
    by (simp add: status_of_def approve_tasks)
qed

lemma reject_status:
  "status_of (snd (post_api_tasks_reject env tid st)) x =
     (if x = tid \<and> status_of st tid \<noteq> None then Some REJECTED else status_of st x)"
proof (cases "find (\<lambda>t. task_id t = tid) (tasks st)")
  case None
  then have "task_update tid REJECTED (tasks st) = None"
    by (simp add: task_update_None)
  with None show ?thesis
    by (simp add: status_of_def reject_tasks)
next
  case (Some t0)
  from task_update_Some[OF Some, of REJECTED] obtain ts' where
    "task_update tid REJECTED (tasks st) = Some (t0\<lparr>status := REJECTED\<rparr>, ts')"
    "\<forall>x. find (\<lambda>t. task_id t = x) ts' =
       (if x = tid then Some (t0\<lparr>status := REJECTED\<rparr>)
        else find (\<lambda>t. task_id t = x) (tasks st))"
    by blast
  with Some show ?thesis
    by (simp add: status_of_def reject_tasks)
qed

lemma handle_keeps_terminal:
  assumes "status_of st x = Some s" and "s \<noteq> PENDING"
  shows "\<exists>s'. status_of (handle r st) x = Some s' \<and> s' \<noteq> PENDING"
proof (cases r)
  case (PostApprove env tid)
  with assms show ?thesis by (simp add: approve_status)
next
  case (PostReject env tid)
  with assms show ?thesis by (simp add: reject_status)
next
  case (RunDiscovery env)
  with assms show ?thesis by (simp add: discover_status)
qed (use assms in simp_all)

lemma run_keeps_terminal:
  "status_of st x = Some s \<Longrightarrow> s \<noteq> PENDING \<Longrightarrow>
     \<exists>s'. status_of (run rs st) x = Some s' \<and> s' \<noteq> PENDING"
proof (induction rs arbitrary: st s)
  case Nil
  then show ?case by simp
next
  case (Cons r rs)
  from handle_keeps_terminal[OF Cons.prems] obtain s1 where
    "status_of (handle r st) x = Some s1" "s1 \<noteq> PENDING" by blast
  from Cons.IH[OF this] show ?case by simp
qed

lemma example_status:
  "status_of example_state ''t1'' = Some PENDING"
  "status_of example_state ''t3'' = Some APPROVED"
  by (simp_all add: status_of_def example_defs)

text \<open>
  C1, as the code has it. The handlers write the status without looking at the current
  one, so approve and reject overwrite a terminal status with their own. What holds: no
  sequence of operations takes a task that has left PENDING back to PENDING (and the task
  stays in the store); discovery and the queries change no status; approve leaves any
  task's status as it was or APPROVED, reject as it was or REJECTED.
\<close>

theorem status_never_back_to_pending:
  "(\<forall>s. status_of st x = Some s \<and> s \<noteq> PENDING \<longrightarrow>
       (\<exists>s'. status_of (run rs st) x = Some s' \<and> s' \<noteq> PENDING))
   \<and> (\<not> is_transition r \<longrightarrow> status_of (handle r st) x = status_of st x)
   \<and> (status_of (handle (PostApprove env tid) st) x = status_of st x
        \<or> status_of (handle (PostApprove env tid) st) x = Some APPROVED)
   \<and> (status_of (handle (PostReject env tid) st) x = status_of st x
        \<or> status_of (handle (PostReject env tid) st) x = Some REJECTED)"
proof (intro conjI allI impI)
  fix s assume "status_of st x = Some s \<and> s \<noteq> PENDING"
  then show "\<exists>s'. status_of (run rs st) x = Some s' \<and> s' \<noteq> PENDING"
    using run_keeps_terminal by blast
next
  assume "\<not> is_transition r"
  then show "status_of (handle r st) x = status_of st x"
    by (cases r) (simp_all add: discover_status)
next
  show "status_of (handle (PostApprove env tid) st) x = status_of st x
        \<or> status_of (handle (PostApprove env tid) st) x = Some APPROVED"
    by (simp add: approve_status)
next
  show "status_of (handle (PostReject env tid) st) x = status_of st x
        \<or> status_of (handle (PostReject env tid) st) x = Some REJECTED"
    by (simp add: reject_status)
qed

theorem status_never_back_to_pending_witness:
  "status_of example_state ''t3'' = Some APPROVED
   \<and> APPROVED \<noteq> PENDING
   \<and> (\<exists>s'. status_of (run [PostReject example_env ''t3'', GetTasks 1000000,
                           PostApprove example_env ''t1''] example_state) ''t3'' = Some s'
          \<and> s' \<noteq> PENDING)
   \<and> \<not> is_transition (GetTasks 1000000)
   \<and> status_of (handle (GetTasks 1000000) example_state) ''t3'' = Some APPROVED"
  using status_never_back_to_pending[of example_state "''t3''"
      "[PostReject example_env ''t3'', GetTasks 1000000, PostApprove example_env ''t1'']"
      "GetTasks 1000000"]
    example_status(2)
  by simp

text \<open>
  The claim as stated fails: a task approved and then rejected ends REJECTED.
\<close>

theorem status_switch_counterexample:
  "status_of example_state ''t1'' = Some PENDING
   \<and> status_of (handle (PostApprove example_env ''t1'') example_state) ''t1'' = Some APPROVED
   \<and> status_of (handle (PostReject example_env ''t1'')
                  (handle (PostApprove example_env ''t1'') example_state)) ''t1''
       = Some REJECTED"
  by (simp add: approve_status reject_status example_status)

lemma derive_string:
  "js_opt_prop payload ''traceId'' = Some (JStr v) \<Longrightarrow> v \<noteq> [] \<Longrightarrow>
     derive_traceId payload uuid = JStr v"
  by (simp add: derive_traceId_def)

lemma derive_fresh:
  "\<not> truthy (js_opt_prop payload ''traceId'') \<Longrightarrow> derive_traceId payload uuid = JStr uuid"
  by (cases "js_opt_prop payload ''traceId''") (simp_all add: derive_traceId_def)

lemma approve_bus:
  assumes "find (\<lambda>t. task_id t = tid) (tasks st) = Some t0"
    and "derive_traceId (inputPayload t0) (randomUUID env) = JStr s"
  shows "bus (snd (post_api_tasks_approve env tid st)) =
     bus st @ [\<lparr>msg_data = \<lparr>rp_type = ''RESUME'', rp_taskId = tid, rp_agentId = agentId t0,
                               rp_traceId = JStr s\<rparr>,
                 msg_attributes = [(''traceId'', s)]\<rparr>]"
proof -
  from task_update_Some[OF assms(1), of APPROVED] obtain ts' where
    u: "task_update tid APPROVED (tasks st) = Some (t0\<lparr>status := APPROVED\<rparr>, ts')"
    by blast
  show ?thesis
    using assms(2) found_id[OF assms(1)]
    by (simp add: approve_unfold[OF u] Let_def split: option.splits)
qed

text \<open>
  C3, as the code has it. For every existing task approve sets the status to APPROVED.
  When \<open>inputPayload.traceId\<close> is a non-empty string, or is absent or falsy (null, false,
  0, the empty string), approve publishes exactly one resume signal, with payload
  \<open>{type: "RESUME", taskId, agentId, traceId}\<close> and the \<open>traceId\<close> attribute beside it:
  \<open>traceId\<close> is the payload's string in the first case, and in the second the identifier
  \<open>randomUUID()\<close> returned in this call, so that two calls that draw different
  identifiers publish different trace ids.
\<close>

theorem approve_publishes_resume:
  assumes "find (\<lambda>t. task_id t = tid) (tasks st) = Some t0"
  shows "status_of (snd (post_api_tasks_approve env tid st)) tid = Some APPROVED
   \<and> (\<forall>v. js_opt_prop (inputPayload t0) ''traceId'' = Some (JStr v) \<and> v \<noteq> [] \<longrightarrow>
         bus (snd (post_api_tasks_approve env tid st)) =
           bus st @ [\<lparr>msg_data = \<lparr>rp_type = ''RESUME'', rp_taskId = tid,
                                     rp_agentId = agentId t0, rp_traceId = JStr v\<rparr>,
                       msg_attributes = [(''traceId'', v)]\<rparr>])
   \<and> (\<not> truthy (js_opt_prop (inputPayload t0) ''traceId'') \<longrightarrow>
         bus (snd (post_api_tasks_approve env tid st)) =
           bus st @ [\<lparr>msg_data = \<lparr>rp_type = ''RESUME'', rp_taskId = tid,
                                     rp_agentId = agentId t0,
                                     rp_traceId = JStr (randomUUID env)\<rparr>,
                       msg_attributes = [(''traceId'', randomUUID env)]\<rparr>]
         \<and> (\<forall>env2 :: lifecycle_env. randomUUID env2 \<noteq> randomUUID env \<longrightarrow>
               last (bus (snd (post_api_tasks_approve env2 tid st)))
                 \<noteq> last (bus (snd (post_api_tasks_approve env tid st)))))"
proof (intro conjI allI impI)
  from assms have "status_of st tid \<noteq> None"
    by (simp add: status_of_def)
  then show "status_of (snd (post_api_tasks_approve env tid st)) tid = Some APPROVED"
    by (simp add: approve_status)
next
  fix v assume "js_opt_prop (inputPayload t0) ''traceId'' = Some (JStr v) \<and> v \<noteq> []"
  then have "derive_traceId (inputPayload t0) (randomUUID env) = JStr v"
    by (simp add: derive_string)
  from approve_bus[OF assms this]
  show "bus (snd (post_api_tasks_approve env tid st)) =
           bus st @ [\<lparr>msg_data = \<lparr>rp_type = ''RESUME'', rp_taskId = tid,
                                     rp_agentId = agentId t0, rp_traceId = JStr v\<rparr>,
                       msg_attributes = [(''traceId'', v)]\<rparr>]" .
next
  assume "\<not> truthy (js_opt_prop (inputPayload t0) ''traceId'')"
  then have "derive_traceId (inputPayload t0) (randomUUID env) = JStr (randomUUID env)"
    by (rule derive_fresh)
  from approve_bus[OF assms this]
  show "bus (snd (post_api_tasks_approve env tid st)) =
           bus st @ [\<lparr>msg_data = \<lparr>rp_type = ''RESUME'', rp_taskId = tid,
                                     rp_agentId = agentId t0,
                                     rp_traceId = JStr (randomUUID env)\<rparr>,
                       msg_attributes = [(''traceId'', randomUUID env)]\<rparr>]" .
next
  fix env2 :: lifecycle_env
  assume falsy: "\<not> truthy (js_opt_prop (inputPayload t0) ''traceId'')"
    and differ: "randomUUID env2 \<noteq> randomUUID env"
  have "derive_traceId (inputPayload t0) (randomUUID env) = JStr (randomUUID env)"
    "derive_traceId (inputPayload t0) (randomUUID env2) = JStr (randomUUID env2)"
    using falsy by (simp_all add: derive_fresh)
  from approve_bus[OF assms this(1)] approve_bus[OF assms this(2)] differ
  show "last (bus (snd (post_api_tasks_approve env2 tid st)))
          \<noteq> last (bus (snd (post_api_tasks_approve env tid st)))"
    by simp
qed

lemma example_found:
  "find (\<lambda>t. task_id t = ''t1'') (tasks example_state) =
     Some (task_at ''t1'' PENDING
             (JObj [(''source'', JStr ''github''), (''traceId'', JStr ''trace-7'')]) 700000)"
  "find (\<lambda>t. task_id t = ''t2'') (tasks example_state) = Some (task_at ''t2'' PENDING JNull 699000)"
  "find (\<lambda>t. task_id t = ''t4'') (tasks example_state) =
     Some (task_at ''t4'' PENDING (JObj [(''traceId'', JStr [])]) 400000)"
  by (simp_all add: example_defs)

lemma example_fields:
  "bus example_state = []"
  "spans example_state = []"
  "agents example_state = [agent_A]"
  "randomUUID example_env = ''9b2e''"
  by (simp_all add: example_state_def example_env_def)

theorem approve_publishes_resume_witness:
  "find (\<lambda>t. task_id t = ''t1'') (tasks example_state) =
     Some (task_at ''t1'' PENDING
             (JObj [(''source'', JStr ''github''), (''traceId'', JStr ''trace-7'')]) 700000)
   \<and> js_opt_prop (JObj [(''source'', JStr ''github''), (''traceId'', JStr ''trace-7'')]) ''traceId''
       = Some (JStr ''trace-7'')
   \<and> bus (snd (post_api_tasks_approve example_env ''t1'' example_state)) =
       [\<lparr>msg_data = \<lparr>rp_type = ''RESUME'', rp_taskId = ''t1'', rp_agentId = ''a1'',
                      rp_traceId = JStr ''trace-7''\<rparr>,
         msg_attributes = [(''traceId'', ''trace-7'')]\<rparr>]
   \<and> find (\<lambda>t. task_id t = ''t2'') (tasks example_state) = Some (task_at ''t2'' PENDING JNull 699000)
   \<and> \<not> truthy (js_opt_prop JNull ''traceId'')
   \<and> bus (snd (post_api_tasks_approve example_env ''t2'' example_state)) =
       [\<lparr>msg_data = \<lparr>rp_type = ''RESUME'', rp_taskId = ''t2'', rp_agentId = ''a1'',
                      rp_traceId = JStr ''9b2e''\<rparr>,
         msg_attributes = [(''traceId'', ''9b2e'')]\<rparr>]
   \<and> randomUUID (example_env\<lparr>randomUUID := ''51c0''\<rparr>) \<noteq> randomUUID example_env
   \<and> last (bus (snd (post_api_tasks_approve (example_env\<lparr>randomUUID := ''51c0''\<rparr>) ''t2''
                      example_state)))
       \<noteq> last (bus (snd (post_api_tasks_approve example_env ''t2'' example_state)))"
proof -
  have p1: "js_opt_prop (inputPayload (task_at ''t1'' PENDING
             (JObj [(''source'', JStr ''github''), (''traceId'', JStr ''trace-7'')]) 700000))
             ''traceId'' = Some (JStr ''trace-7'') \<and> ''trace-7'' \<noteq> []"
    by (simp add: task_at_def)
  have p2: "\<not> truthy (js_opt_prop (inputPayload (task_at ''t2'' PENDING JNull 699000)) ''traceId'')"
    by (simp add: task_at_def)
  have u: "randomUUID (example_env\<lparr>randomUUID := ''51c0''\<rparr>) \<noteq> randomUUID example_env"
    by (simp add: example_env_def)
  from approve_publishes_resume[OF example_found(1), of example_env] p1
  have "bus (snd (post_api_tasks_approve example_env ''t1'' example_state)) =
       bus example_state @
       [\<lparr>msg_data = \<lparr>rp_type = ''RESUME'', rp_taskId = ''t1'',
                      rp_agentId = agentId (task_at ''t1'' PENDING
                        (JObj [(''source'', JStr ''github''), (''traceId'', JStr ''trace-7'')])
                        700000),
                      rp_traceId = JStr ''trace-7''\<rparr>,
         msg_attributes = [(''traceId'', ''trace-7'')]\<rparr>]"
    by blast
  then have b1: "bus (snd (post_api_tasks_approve example_env ''t1'' example_state)) =
       [\<lparr>msg_data = \<lparr>rp_type = ''RESUME'', rp_taskId = ''t1'', rp_agentId = ''a1'',
                      rp_traceId = JStr ''trace-7''\<rparr>,
         msg_attributes = [(''traceId'', ''trace-7'')]\<rparr>]"
    by (simp add: task_at_def example_fields)
  note second = approve_publishes_resume[OF example_found(2), of example_env]
  from second p2
  have "bus (snd (post_api_tasks_approve example_env ''t2'' example_state)) =
       bus example_state @
       [\<lparr>msg_data = \<lparr>rp_type = ''RESUME'', rp_taskId = ''t2'',
                      rp_agentId = agentId (task_at ''t2'' PENDING JNull 699000),
                      rp_traceId = JStr (randomUUID example_env)\<rparr>,
         msg_attributes = [(''traceId'', randomUUID example_env)]\<rparr>]"
    by blast
  then have b2: "bus (snd (post_api_tasks_approve example_env ''t2'' example_state)) =
       [\<lparr>msg_data = \<lparr>rp_type = ''RESUME'', rp_taskId = ''t2'', rp_agentId = ''a1'',
                      rp_traceId = JStr ''9b2e''\<rparr>,
         msg_attributes = [(''traceId'', ''9b2e'')]\<rparr>]"
    by (simp add: task_at_def example_fields)
  from second p2
  have d2: "\<forall>env2 :: lifecycle_env. randomUUID env2 \<noteq> randomUUID example_env \<longrightarrow>
               last (bus (snd (post_api_tasks_approve env2 ''t2'' example_state)))
                 \<noteq> last (bus (snd (post_api_tasks_approve example_env ''t2'' example_state)))"
    by blast
  from d2 u have
    "last (bus (snd (post_api_tasks_approve (example_env\<lparr>randomUUID := ''51c0''\<rparr>) ''t2''
                      example_state)))
       \<noteq> last (bus (snd (post_api_tasks_approve example_env ''t2'' example_state)))"
    by blast
  with example_found(1,2) p1 p2 b1 b2 u show ?thesis
    by (simp add: task_at_def)
qed

text \<open>
  The claim as stated fails where the field is present and falsy: task \<open>t4\<close> carries
  \<open>traceId = ""\<close>, and the signal approve publishes for it carries the generated
  identifier, not the payload's value.
\<close>

theorem approve_traceId_counterexample:
  "find (\<lambda>t. task_id t = ''t4'') (tasks example_state) =
     Some (task_at ''t4'' PENDING (JObj [(''traceId'', JStr [])]) 400000)
   \<and> js_prop (inputPayload (task_at ''t4'' PENDING (JObj [(''traceId'', JStr [])]) 400000))
        ''traceId'' = Some (JStr [])
   \<and> map (rp_traceId \<circ> msg_data)
        (bus (snd (post_api_tasks_approve example_env ''t4'' example_state))) = [JStr ''9b2e'']
   \<and> JStr ''9b2e'' \<noteq> JStr []"
  by (simp add: post_api_tasks_approve_def Let_def example_defs derive_traceId_def
      publishMessage_def record_span_def traceSpan_create_def include_agent_def
      find_agent_def)

text \<open>
  C4. For every existing task reject sets the status to REJECTED and publishes nothing.
  It derives the trace id as approve does and records the span approve records, under its
  own operation name: whatever spans approve adds to the Trace Store from the same state,
  reject adds the same with \<open>operation = "reject_task"\<close>. When the task's agent row is
  there and the trace id is a string, that is one span with \<open>service = "acc"\<close>, the
  duration from entry to the recording, and the metadata \<open>{taskId, agentName}\<close>.
\<close>

theorem reject_records_span_only:
  assumes "find (\<lambda>t. task_id t = tid) (tasks st) = Some t0"
  shows "status_of (snd (post_api_tasks_reject env tid st)) tid = Some REJECTED
   \<and> bus (snd (post_api_tasks_reject env tid st)) = bus st
   \<and> (\<exists>added. spans (snd (post_api_tasks_approve env tid st)) = spans st @ added
         \<and> spans (snd (post_api_tasks_reject env tid st)) =
             spans st @ map (\<lambda>s. s\<lparr>operation := ''reject_task''\<rparr>) added)
   \<and> (\<forall>a s. find_agent (agents st) (agentId t0) = Some a
           \<and> derive_traceId (inputPayload t0) (randomUUID env) = JStr s \<longrightarrow>
         spans (snd (post_api_tasks_reject env tid st)) =
           spans st @
             [\<lparr>span_id = new_span_id env, traceId = s, parentId = new_span_parentId env,
               service = ''acc'', operation = ''reject_task'',
               span_status = new_span_status env,
               durationMs = recorded env - entered env,
               metadata = JObj [(''taskId'', JStr tid), (''agentName'', JStr (name a))],
               startedAt = new_span_startedAt env\<rparr>]
         \<and> spans (snd (post_api_tasks_approve env tid st)) =
           spans st @
             [\<lparr>span_id = new_span_id env, traceId = s, parentId = new_span_parentId env,
               service = ''acc'', operation = ''approve_task'',
               span_status = new_span_status env,
               durationMs = recorded env - entered env,
               metadata = JObj [(''taskId'', JStr tid), (''agentName'', JStr (name a))],
               startedAt = new_span_startedAt env\<rparr>])"
proof -
  from task_update_Some[OF assms, of APPROVED] obtain tsA where
    uA: "task_update tid APPROVED (tasks st) = Some (t0\<lparr>status := APPROVED\<rparr>, tsA)"
    by blast
  from task_update_Some[OF assms, of REJECTED] obtain tsR where
    uR: "task_update tid REJECTED (tasks st) = Some (t0\<lparr>status := REJECTED\<rparr>, tsR)"
    by blast
  note tid = found_id[OF assms]
  from assms have "status_of st tid \<noteq> None"
    by (simp add: status_of_def)
  then have c1: "status_of (snd (post_api_tasks_reject env tid st)) tid = Some REJECTED"
    by (simp add: reject_status)
  have c2: "bus (snd (post_api_tasks_reject env tid st)) = bus st"
    by (simp add: reject_unfold[OF uR] split: option.splits json.splits)
  have c3: "\<exists>added. spans (snd (post_api_tasks_approve env tid st)) = spans st @ added
         \<and> spans (snd (post_api_tasks_reject env tid st)) =
             spans st @ map (\<lambda>s. s\<lparr>operation := ''reject_task''\<rparr>) added"
  proof (cases "find_agent (agents st) (agentId t0)")
    case None
    then have "spans (snd (post_api_tasks_approve env tid st)) = spans st @ []
        \<and> spans (snd (post_api_tasks_reject env tid st)) =
             spans st @ map (\<lambda>s. s\<lparr>operation := ''reject_task''\<rparr>) []"
      by (simp add: approve_unfold[OF uA] reject_unfold[OF uR] Let_def split: json.splits)
    then show ?thesis by blast
  next
    case (Some a)
    show ?thesis
    proof (cases "derive_traceId (inputPayload t0) (randomUUID env)")
      case (JStr s)
      let ?sp = "\<lparr>span_id = new_span_id env, traceId = s, parentId = new_span_parentId env,
               service = ''acc'', operation = ''approve_task'',
               span_status = new_span_status env,
               durationMs = recorded env - entered env,
               metadata = JObj [(''taskId'', JStr tid), (''agentName'', JStr (name a))],
               startedAt = new_span_startedAt env\<rparr>"
      from Some JStr tid
      have "spans (snd (post_api_tasks_approve env tid st)) = spans st @ [?sp]
        \<and> spans (snd (post_api_tasks_reject env tid st)) =
             spans st @ map (\<lambda>s. s\<lparr>operation := ''reject_task''\<rparr>) [?sp]"
        by (simp add: approve_unfold[OF uA] reject_unfold[OF uR] Let_def)
      then show ?thesis by blast
    qed (rule exI[of _ "[]"],
         use Some in \<open>simp add: approve_unfold[OF uA] reject_unfold[OF uR]\<close>)+
  qed
  have c4: "\<forall>a s. find_agent (agents st) (agentId t0) = Some a
           \<and> derive_traceId (inputPayload t0) (randomUUID env) = JStr s \<longrightarrow>
         spans (snd (post_api_tasks_reject env tid st)) =
           spans st @
             [\<lparr>span_id = new_span_id env, traceId = s, parentId = new_span_parentId env,
               service = ''acc'', operation = ''reject_task'',
               span_status = new_span_status env,
               durationMs = recorded env - entered env,
               metadata = JObj [(''taskId'', JStr tid), (''agentName'', JStr (name a))],
               startedAt = new_span_startedAt env\<rparr>]
         \<and> spans (snd (post_api_tasks_approve env tid st)) =
           spans st @
             [\<lparr>span_id = new_span_id env, traceId = s, parentId = new_span_parentId env,
               service = ''acc'', operation = ''approve_task'',
               span_status = new_span_status env,
               durationMs = recorded env - entered env,
               metadata = JObj [(''taskId'', JStr tid), (''agentName'', JStr (name a))],
               startedAt = new_span_startedAt env\<rparr>]"
    using tid by (simp add: approve_unfold[OF uA] reject_unfold[OF uR] Let_def)
  from c1 c2 c3 c4 show ?thesis by blast
qed

theorem reject_records_span_only_witness:
  "find (\<lambda>t. task_id t = ''t1'') (tasks example_state) =
     Some (task_at ''t1'' PENDING
             (JObj [(''source'', JStr ''github''), (''traceId'', JStr ''trace-7'')]) 700000)
   \<and> find_agent (agents example_state) ''a1'' = Some agent_A
   \<and> derive_traceId (JObj [(''source'', JStr ''github''), (''traceId'', JStr ''trace-7'')])
        (randomUUID example_env) = JStr ''trace-7''
   \<and> status_of (snd (post_api_tasks_reject example_env ''t1'' example_state)) ''t1''
       = Some REJECTED
   \<and> bus (snd (post_api_tasks_reject example_env ''t1'' example_state)) = []
   \<and> spans (snd (post_api_tasks_reject example_env ''t1'' example_state)) =
       [\<lparr>span_id = ''s1'', traceId = ''trace-7'', parentId = None, service = ''acc'',
         operation = ''reject_task'', span_status = ''OK'', durationMs = 12,
         metadata = JObj [(''taskId'', JStr ''t1''), (''agentName'', JStr ''Analyst'')],
         startedAt = 1000013\<rparr>]"
proof -
  let ?t1 = "task_at ''t1'' PENDING
             (JObj [(''source'', JStr ''github''), (''traceId'', JStr ''trace-7'')]) 700000"
  have ag: "find_agent (agents example_state) (agentId ?t1) = Some agent_A"
    by (simp add: find_agent_def example_defs)
  have tr: "derive_traceId (inputPayload ?t1) (randomUUID example_env) = JStr ''trace-7''"
    by (simp add: derive_traceId_def task_at_def)
  note inst = reject_records_span_only[OF example_found(1), of example_env]
  from inst have st: "status_of (snd (post_api_tasks_reject example_env ''t1'' example_state)) ''t1''
       = Some REJECTED"
    and bs: "bus (snd (post_api_tasks_reject example_env ''t1'' example_state)) = bus example_state"
    by blast+
  from inst ag tr
  have "spans (snd (post_api_tasks_reject example_env ''t1'' example_state)) =
           spans example_state @
             [\<lparr>span_id = new_span_id example_env, traceId = ''trace-7'',
               parentId = new_span_parentId example_env,
               service = ''acc'', operation = ''reject_task'',
               span_status = new_span_status example_env,
               durationMs = recorded example_env - entered example_env,
               metadata = JObj [(''taskId'', JStr ''t1''), (''agentName'', JStr (name agent_A))],
               startedAt = new_span_startedAt example_env\<rparr>]"
    by blast
  then have sp: "spans (snd (post_api_tasks_reject example_env ''t1'' example_state)) =
       [\<lparr>span_id = ''s1'', traceId = ''trace-7'', parentId = None, service = ''acc'',
         operation = ''reject_task'', span_status = ''OK'', durationMs = 12,
         metadata = JObj [(''taskId'', JStr ''t1''), (''agentName'', JStr ''Analyst'')],
         startedAt = 1000013\<rparr>]"
    by (simp add: example_fields example_env_def agent_A_def)
  from example_found(1) ag tr st bs sp show ?thesis
    by (simp add: task_at_def example_fields)
qed

text \<open>
  C10. For an existing task whose \<open>inputPayload\<close> is null, or has no \<open>traceId\<close> member,
  or has the empty string there, reading the payload does not fail and the trace id of
  the operation is the generated identifier. Given that \<open>randomUUID()\<close> returns a
  non-empty string, the trace id approve publishes (in the payload and as the attribute)
  and the trace id approve and reject record in their span is that identifier, so neither
  null nor empty; with the agent row there both requests succeed, and without it the only
  failure is the read of the agent's name.
\<close>

theorem absent_traceId_uses_uuid:
  assumes "find (\<lambda>t. task_id t = tid) (tasks st) = Some t0"
    and "inputPayload t0 = JNull
         \<or> js_prop (inputPayload t0) ''traceId'' = None
         \<or> js_prop (inputPayload t0) ''traceId'' = Some (JStr [])"
    and "randomUUID env \<noteq> []"
  shows "derive_traceId (inputPayload t0) (randomUUID env) = JStr (randomUUID env)
   \<and> JStr (randomUUID env) \<noteq> JNull \<and> JStr (randomUUID env) \<noteq> JStr []
   \<and> bus (snd (post_api_tasks_approve env tid st)) =
       bus st @ [\<lparr>msg_data = \<lparr>rp_type = ''RESUME'', rp_taskId = tid,
                                 rp_agentId = agentId t0,
                                 rp_traceId = JStr (randomUUID env)\<rparr>,
                   msg_attributes = [(''traceId'', randomUUID env)]\<rparr>]
   \<and> (\<forall>a. find_agent (agents st) (agentId t0) = Some a \<longrightarrow>
         fst (post_api_tasks_approve env tid st) =
           Inr \<lparr>tw_task = t0\<lparr>status := APPROVED\<rparr>, tw_agent = Some a\<rparr>
         \<and> (\<exists>sp. spans (snd (post_api_tasks_approve env tid st)) = spans st @ [sp]
                \<and> traceId sp = randomUUID env \<and> operation sp = ''approve_task'')
         \<and> fst (post_api_tasks_reject env tid st) =
           Inr \<lparr>tw_task = t0\<lparr>status := REJECTED\<rparr>, tw_agent = Some a\<rparr>
         \<and> (\<exists>sp. spans (snd (post_api_tasks_reject env tid st)) = spans st @ [sp]
                \<and> traceId sp = randomUUID env \<and> operation sp = ''reject_task''))
   \<and> (find_agent (agents st) (agentId t0) = None \<longrightarrow>
         fst (post_api_tasks_approve env tid st) = Inl no_agent
         \<and> fst (post_api_tasks_reject env tid st) = Inl no_agent)"
proof -
  from assms(2) have "\<not> truthy (js_opt_prop (inputPayload t0) ''traceId'')"
    by (cases "inputPayload t0") auto
  then have d: "derive_traceId (inputPayload t0) (randomUUID env) = JStr (randomUUID env)"
    by (rule derive_fresh)
  from task_update_Some[OF assms(1), of APPROVED] obtain tsA where
    uA: "task_update tid APPROVED (tasks st) = Some (t0\<lparr>status := APPROVED\<rparr>, tsA)"
    by blast
  from task_update_Some[OF assms(1), of REJECTED] obtain tsR where
    uR: "task_update tid REJECTED (tasks st) = Some (t0\<lparr>status := REJECTED\<rparr>, tsR)"
    by blast
  have nonempty: "JStr (randomUUID env) \<noteq> JNull \<and> JStr (randomUUID env) \<noteq> JStr []"
    using assms(3) by simp
  note published = approve_bus[OF assms(1) d]
  have with_agent: "\<forall>a. find_agent (agents st) (agentId t0) = Some a \<longrightarrow>
         fst (post_api_tasks_approve env tid st) =
           Inr \<lparr>tw_task = t0\<lparr>status := APPROVED\<rparr>, tw_agent = Some a\<rparr>
         \<and> (\<exists>sp. spans (snd (post_api_tasks_approve env tid st)) = spans st @ [sp]
                \<and> traceId sp = randomUUID env \<and> operation sp = ''approve_task'')
         \<and> fst (post_api_tasks_reject env tid st) =
           Inr \<lparr>tw_task = t0\<lparr>status := REJECTED\<rparr>, tw_agent = Some a\<rparr>
         \<and> (\<exists>sp. spans (snd (post_api_tasks_reject env tid st)) = spans st @ [sp]
                \<and> traceId sp = randomUUID env \<and> operation sp = ''reject_task'')"
    using d by (simp add: approve_unfold[OF uA] reject_unfold[OF uR] Let_def)
  have without_agent: "find_agent (agents st) (agentId t0) = None \<longrightarrow>
         fst (post_api_tasks_approve env tid st) = Inl no_agent
         \<and> fst (post_api_tasks_reject env tid st) = Inl no_agent"
    using d by (simp add: approve_unfold[OF uA] reject_unfold[OF uR] Let_def)
  from d nonempty published with_agent without_agent show ?thesis
    by blast
qed

theorem absent_traceId_uses_uuid_witness:
  "find (\<lambda>t. task_id t = ''t4'') (tasks example_state) =
     Some (task_at ''t4'' PENDING (JObj [(''traceId'', JStr [])]) 400000)
   \<and> js_prop (JObj [(''traceId'', JStr [])]) ''traceId'' = Some (JStr [])
   \<and> randomUUID example_env \<noteq> []
   \<and> find_agent (agents example_state) ''a1'' = Some agent_A
   \<and> derive_traceId (JObj [(''traceId'', JStr [])]) (randomUUID example_env) = JStr ''9b2e''
   \<and> map msg_attributes (bus (snd (post_api_tasks_approve example_env ''t4'' example_state)))
       = [[(''traceId'', ''9b2e'')]]
   \<and> (\<exists>sp. spans (snd (post_api_tasks_reject example_env ''t4'' example_state)) = [sp]
          \<and> traceId sp = ''9b2e'' \<and> operation sp = ''reject_task'')"
proof -
  let ?t4 = "task_at ''t4'' PENDING (JObj [(''traceId'', JStr [])]) 400000"
  have p: "inputPayload ?t4 = JNull
         \<or> js_prop (inputPayload ?t4) ''traceId'' = None
         \<or> js_prop (inputPayload ?t4) ''traceId'' = Some (JStr [])"
    by (simp add: task_at_def)
  have u: "randomUUID example_env \<noteq> []"
    by (simp add: example_env_def)
  have ag: "find_agent (agents example_state) (agentId ?t4) = Some agent_A"
    by (simp add: find_agent_def example_defs)
  note inst = absent_traceId_uses_uuid[OF example_found(3) p u]
  from inst have d: "derive_traceId (inputPayload ?t4) (randomUUID example_env)
      = JStr (randomUUID example_env)"
    by blast
  from inst have "bus (snd (post_api_tasks_approve example_env ''t4'' example_state)) =
       bus example_state @ [\<lparr>msg_data = \<lparr>rp_type = ''RESUME'', rp_taskId = ''t4'',
                                 rp_agentId = agentId ?t4,
                                 rp_traceId = JStr (randomUUID example_env)\<rparr>,
                   msg_attributes = [(''traceId'', randomUUID example_env)]\<rparr>]"
    by blast
  then have b: "map msg_attributes
        (bus (snd (post_api_tasks_approve example_env ''t4'' example_state)))
       = [[(''traceId'', ''9b2e'')]]"
    by (simp add: example_fields)
  from inst ag
  have "\<exists>sp. spans (snd (post_api_tasks_reject example_env ''t4'' example_state))
            = spans example_state @ [sp]
          \<and> traceId sp = randomUUID example_env \<and> operation sp = ''reject_task''"
    by blast
  then have r: "\<exists>sp. spans (snd (post_api_tasks_reject example_env ''t4'' example_state)) = [sp]
          \<and> traceId sp = ''9b2e'' \<and> operation sp = ''reject_task''"
    by (simp add: example_fields)
  from example_found(3) p u ag d b r show ?thesis
    by (simp add: task_at_def example_fields)
qed

section \<open>Properties of agent discovery\<close>

lemma agent_create_cases:
  "(\<exists>a. agent_create env n r g p ags = Inr (ags @ [a]) \<and> name a = n)
   \<or> (\<forall>env2 ags2. agent_create env2 n r g p ags2 = agent_create env n r g p ags
        \<and> (\<exists>e. agent_create env n r g p ags = Inl e))"
  by (induction env n r g p ags rule: agent_create.induct) simp_all

lemma find_name_None: "find (\<lambda>a. name a = n) ags = None \<longleftrightarrow> n \<notin> name ` set ags"
  by (auto simp: find_None_iff)

lemma upsert_agent_known:
  assumes "entry_name e = Some n" and "n \<in> name ` set B"
  shows "upsert_agent env e (B, T) = Inr (B, T @ [n])"
proof -
  from assms(1) have g: "js_get e ''name'' = Inr (Some (JStr n))"
    by (auto simp: entry_name_def split: sum.splits option.splits json.splits)
  from assms(2) obtain a where "find (\<lambda>a. name a = n) B = Some a"
    using find_name_None[of n B] by (cases "find (\<lambda>a. name a = n) B") auto
  with g show ?thesis
    by (simp add: upsert_agent_def)
qed

lemma upsert_agent_Inr:
  assumes "upsert_agent env e (A, S) = Inr (A', S')"
  shows "\<exists>n. entry_name e = Some n \<and> S' = S @ [n] \<and> n \<in> name ` set A'
           \<and> (\<exists>new. A' = A @ new \<and> (\<forall>a \<in> set new. name a \<notin> name ` set A))"
proof -
  from assms obtain n where g: "js_get e ''name'' = Inr (Some (JStr n))"
    by (auto simp: upsert_agent_def split: sum.splits option.splits json.splits)
  then have en: "entry_name e = Some n"
    by (simp add: entry_name_def)
  show ?thesis
  proof (cases "find (\<lambda>a. name a = n) A")
    case (Some a)
    with g assms have "A' = A" "S' = S @ [n]"
      by (simp_all add: upsert_agent_def)
    moreover from Some have "n \<in> name ` set A"
      using find_name_None[of n A] by auto
    ultimately show ?thesis using en by auto
  next
    case None
    then have notin: "n \<notin> name ` set A" by (simp add: find_name_None)
    from agent_create_cases[of env n "js_prop e ''role''" "js_prop e ''goal''"
        "auto_prompt n" A]
    show ?thesis
    proof
      assume "\<exists>a. agent_create env n (js_prop e ''role'') (js_prop e ''goal'') (auto_prompt n) A = Inr (A @ [a]) \<and> name a = n"
      then obtain a where c: "agent_create env n (js_prop e ''role'') (js_prop e ''goal'') (auto_prompt n) A = Inr (A @ [a])" and na: "name a = n"
        by blast
      with g None assms have "A' = A @ [a]" "S' = S @ [n]"
        by (simp_all add: upsert_agent_def)
      with na notin en show ?thesis by auto
    next
      assume "\<forall>env2 ags2. agent_create env2 n (js_prop e ''role'') (js_prop e ''goal'') (auto_prompt n) ags2
               = agent_create env n (js_prop e ''role'') (js_prop e ''goal'') (auto_prompt n) A
            \<and> (\<exists>err. agent_create env n (js_prop e ''role'') (js_prop e ''goal'') (auto_prompt n) A = Inl err)"
      then obtain err where "agent_create env n (js_prop e ''role'') (js_prop e ''goal'') (auto_prompt n) A = Inl err"
        by blast
      with g None assms show ?thesis
        by (simp add: upsert_agent_def)
    qed
  qed
qed

lemma upsert_agent_Inl:
  assumes "upsert_agent env e (A, S) = Inl err"
    and "\<forall>n. entry_name e = Some n \<longrightarrow> (n \<in> name ` set B \<longleftrightarrow> n \<in> name ` set A)"
  shows "upsert_agent env2 e (B, T) = Inl err"
proof (cases "entry_name e")
  case None
  then have "\<And>s s2. upsert_agent env e s = upsert_agent env2 e s2"
    by (cases e; auto simp: upsert_agent_def entry_name_def split: sum.splits option.splits json.splits)
  with assms(1) show ?thesis by metis
next
  case (Some n)
  then have g: "js_get e ''name'' = Inr (Some (JStr n))"
    by (auto simp: entry_name_def split: sum.splits option.splits json.splits)
  show ?thesis
  proof (cases "find (\<lambda>a. name a = n) A")
    case (Some a)
    with g assms(1) show ?thesis by (simp add: upsert_agent_def)
  next
    case None
    then have "n \<notin> name ` set A" by (simp add: find_name_None)
    with assms(2) \<open>entry_name e = Some n\<close> have "n \<notin> name ` set B" by blast
    then have nb: "find (\<lambda>a. name a = n) B = None" by (simp add: find_name_None)
    from agent_create_cases[of env n "js_prop e ''role''" "js_prop e ''goal''"
        "auto_prompt n" A]
    show ?thesis
    proof
      assume "\<exists>a. agent_create env n (js_prop e ''role'') (js_prop e ''goal'') (auto_prompt n) A = Inr (A @ [a]) \<and> name a = n"
      with g None assms(1) show ?thesis
        by (auto simp: upsert_agent_def)
    next
      assume same: "\<forall>env2 ags2. agent_create env2 n (js_prop e ''role'') (js_prop e ''goal'') (auto_prompt n) ags2
               = agent_create env n (js_prop e ''role'') (js_prop e ''goal'') (auto_prompt n) A
            \<and> (\<exists>err. agent_create env n (js_prop e ''role'') (js_prop e ''goal'') (auto_prompt n) A = Inl err)"
      then have "agent_create env2 n (js_prop e ''role'') (js_prop e ''goal'') (auto_prompt n) B
               = agent_create env n (js_prop e ''role'') (js_prop e ''goal'') (auto_prompt n) A"
        by blast
      with g None nb assms(1) show ?thesis
        by (simp add: upsert_agent_def split: sum.splits)
    qed
  qed
qed


lemma upsert_loop_grows:
  "upsert_loop env es (A, S) = (r, A1, S1) \<Longrightarrow>
     \<exists>new more. A1 = A @ new \<and> S1 = S @ more \<and> (\<forall>a \<in> set new. name a \<notin> name ` set A)"
proof (induction es arbitrary: A S)
  case Nil
  then show ?case by simp
next
  case (Cons e es)
  show ?case
  proof (cases "upsert_agent env e (A, S)")
    case (Inl err)
    with Cons.prems show ?thesis by simp
  next
    case (Inr s')
    obtain A' S' where s': "s' = (A', S')" by (cases s')
    from upsert_agent_Inr[OF Inr[unfolded s']] obtain n new1 where
      first: "S' = S @ [n]" "A' = A @ new1" "\<forall>a \<in> set new1. name a \<notin> name ` set A"
      by blast
    from Cons.prems Inr s' have "upsert_loop env es (A', S') = (r, A1, S1)" by simp
    from Cons.IH[OF this] obtain new2 more2 where
      rest: "A1 = A' @ new2" "S1 = S' @ more2" "\<forall>a \<in> set new2. name a \<notin> name ` set A'"
      by blast
    from first rest have "A1 = A @ (new1 @ new2)" "S1 = S @ (n # more2)"
      "\<forall>a \<in> set (new1 @ new2). name a \<notin> name ` set A"
      by auto
    then show ?thesis by blast
  qed
qed

lemma upsert_loop_rerun:
  assumes "upsert_loop env es (A, S) = (r, A1, S1)"
    and "\<forall>e \<in> set es. \<forall>n. entry_name e = Some n \<longrightarrow> (n \<in> name ` set B \<longleftrightarrow> n \<in> name ` set A1)"
  shows "\<exists>more. S1 = S @ more \<and> upsert_loop env2 es (B, T) = (r, B, T @ more)"
  using assms
proof (induction es arbitrary: A S T)
  case Nil
  then show ?case by simp
next
  case (Cons e es)
  show ?case
  proof (cases "upsert_agent env e (A, S)")
    case (Inl err)
    with Cons.prems(1) have res: "r = Some err" "A1 = A" "S1 = S" by simp_all
    from Cons.prems(2) res have
      "\<forall>n. entry_name e = Some n \<longrightarrow> (n \<in> name ` set B \<longleftrightarrow> n \<in> name ` set A)"
      by simp
    from upsert_agent_Inl[OF Inl this] have "upsert_agent env2 e (B, T) = Inl err" .
    with res show ?thesis by simp
  next
    case (Inr s')
    obtain A' S' where s': "s' = (A', S')" by (cases s')
    from upsert_agent_Inr[OF Inr[unfolded s']] obtain n where
      n: "entry_name e = Some n" "S' = S @ [n]" "n \<in> name ` set A'"
      by blast
    from Cons.prems(1) Inr s' have rest: "upsert_loop env es (A', S') = (r, A1, S1)" by simp
    from upsert_loop_grows[OF rest] n(3) have "n \<in> name ` set A1" by auto
    with Cons.prems(2) n(1) have "n \<in> name ` set B" by simp
    from upsert_agent_known[OF n(1) this] have step2: "upsert_agent env2 e (B, T) = Inr (B, T @ [n])" .
    from Cons.prems(2) have
      "\<forall>e \<in> set es. \<forall>n. entry_name e = Some n \<longrightarrow> (n \<in> name ` set B \<longleftrightarrow> n \<in> name ` set A1)"
      by simp
    from Cons.IH[OF rest this, of "T @ [n]"] obtain more where
      "S1 = S' @ more" "upsert_loop env2 es (B, T @ [n]) = (r, B, (T @ [n]) @ more)"
      by blast
    with n(2) step2 have "S1 = S @ (n # more)" "upsert_loop env2 (e # es) (B, T) = (r, B, T @ (n # more))"
      by simp_all
    then show ?thesis by blast
  qed
qed

lemma upsert_loop_idem:
  assumes "upsert_loop env es (A, []) = (r, A1, S1)"
  shows "upsert_loop env2 es (A1, []) = (r, A1, S1)"
  using upsert_loop_rerun[OF assms, of A1 env2 "[]"] by simp

text \<open>
  A run that ends before the agents array is accepted (\<open>fetch\<close> throws, the response is
  not a success, the body does not parse, or the document has no agents array) changes
  nothing but \<open>error\<close>, which it sets.
\<close>

lemma discover_before_loop:
  assumes "reaches_loop (fetched env) = None"
  shows "agents (discoverAgents env st) = agents st
    \<and> lastRun (discoveryStatus (discoverAgents env st)) = lastRun (discoveryStatus st)
    \<and> agentsDiscovered (discoveryStatus (discoverAgents env st)) = agentsDiscovered (discoveryStatus st)
    \<and> agentsSynced (discoveryStatus (discoverAgents env st)) = agentsSynced (discoveryStatus st)
    \<and> error (discoveryStatus (discoverAgents env st)) \<noteq> None"
  using assms
  apply (cases "fetched env")
   apply (simp add: discoverAgents_def discovery_catch_def)
  subgoal for code body
    apply (cases body)
     apply (simp add: discoverAgents_def discovery_catch_def)
    subgoal for doc
      apply (cases "js_get doc ''agents''")
       apply (simp add: discoverAgents_def discovery_catch_def)
      subgoal for v
        apply (cases v)
         apply (simp add: discoverAgents_def discovery_catch_def)
        subgoal for j
          by (cases j) (simp_all add: discoverAgents_def discovery_catch_def split: if_splits)
        done
      done
    done
  done

lemma discover_in_loop:
  assumes "reaches_loop (fetched env) = Some es"
    and "upsert_loop env es (agents st, []) = (r, A1, S1)"
  shows "agents (discoverAgents env st) = A1
    \<and> agentsSynced (discoveryStatus (discoverAgents env st)) = S1
    \<and> agentsDiscovered (discoveryStatus (discoverAgents env st)) = length es
    \<and> lastRun (discoveryStatus (discoverAgents env st)) =
        (if r = None then Some (finished env) else lastRun (discoveryStatus st))
    \<and> error (discoveryStatus (discoverAgents env st)) =
        (case r of None \<Rightarrow> None
         | Some e \<Rightarrow> Some (if message e = [] then ''Unknown error'' else message e))"
proof -
  from assms(1) obtain code doc where
    f: "fetched env = Response code (Inr doc)" "res_ok code"
       "js_get doc ''agents'' = Inr (Some (JArr es))"
    by (cases "fetched env" rule: reaches_loop.cases)
       (auto split: if_splits sum.splits option.splits json.splits)
  with assms(2) show ?thesis
    by (cases r) (simp_all add: discoverAgents_def discovery_catch_def Let_def)
qed


text \<open>
  C6. Running discovery a second time on the answer of the first (the same response and
  document; clock and new ids may differ) leaves the Agent store as the first run left it,
  so of the same size, and leaves the same \<open>agentsSynced\<close>. A run only appends agents
  whose name the store did not hold: every agent that was there is still there, unchanged.
\<close>

theorem discovery_idempotent:
  assumes "fetched env2 = fetched env1"
  shows "agents (discoverAgents env2 (discoverAgents env1 st)) = agents (discoverAgents env1 st)
   \<and> length (agents (discoverAgents env2 (discoverAgents env1 st)))
       = length (agents (discoverAgents env1 st))
   \<and> agentsSynced (discoveryStatus (discoverAgents env2 (discoverAgents env1 st)))
       = agentsSynced (discoveryStatus (discoverAgents env1 st))
   \<and> (\<exists>new. agents (discoverAgents env1 st) = agents st @ new
          \<and> (\<forall>a \<in> set new. name a \<notin> name ` set (agents st)))"
proof (cases "reaches_loop (fetched env1)")
  case None
  with assms have n2: "reaches_loop (fetched env2) = None" by simp
  from discover_before_loop[OF None, of st]
    discover_before_loop[OF n2, of "discoverAgents env1 st"]
  have "agents (discoverAgents env1 st) = agents st @ []"
    "agents (discoverAgents env2 (discoverAgents env1 st)) = agents (discoverAgents env1 st)"
    "agentsSynced (discoveryStatus (discoverAgents env2 (discoverAgents env1 st)))
       = agentsSynced (discoveryStatus (discoverAgents env1 st))"
    by simp_all
  then show ?thesis by (metis empty_iff empty_set)
next
  case (Some es)
  with assms have s2: "reaches_loop (fetched env2) = Some es" by simp
  obtain r A1 S1 where run1: "upsert_loop env1 es (agents st, []) = (r, A1, S1)"
    by (cases "upsert_loop env1 es (agents st, [])")
  from discover_in_loop[OF Some run1] have
    first: "agents (discoverAgents env1 st) = A1"
           "agentsSynced (discoveryStatus (discoverAgents env1 st)) = S1"
    by simp_all
  from upsert_loop_idem[OF run1, of env2] first(1)
  have run2: "upsert_loop env2 es (agents (discoverAgents env1 st), []) = (r, A1, S1)"
    by simp
  from discover_in_loop[OF s2 run2] have
    second: "agents (discoverAgents env2 (discoverAgents env1 st)) = A1"
            "agentsSynced (discoveryStatus (discoverAgents env2 (discoverAgents env1 st))) = S1"
    by simp_all
  from upsert_loop_grows[OF run1] first(1) have
    "\<exists>new. agents (discoverAgents env1 st) = agents st @ new
          \<and> (\<forall>a \<in> set new. name a \<notin> name ` set (agents st))"
    by auto
  with first second show ?thesis by simp
qed

lemma example_discovery_run:
  "agents (discoverAgents
      (example_discovery [card_entry ''Analyst'', card_entry ''Builder'', card_entry ''Builder'']
         ''2026-01-01T00:00:00.000Z'') example_state)
     = [agent_A,
        \<lparr>agent_id = ''agent-1'', name = ''Builder'', role = ''worker'', goal = ''assist'',
         systemPrompt = ''Auto-registered from Agent Card (Builder)''\<rparr>]"
  "agentsSynced (discoveryStatus (discoverAgents
      (example_discovery [card_entry ''Analyst'', card_entry ''Builder'', card_entry ''Builder'']
         ''2026-01-01T00:00:00.000Z'') example_state))
     = [''Analyst'', ''Builder'', ''Builder'']"
  by (simp_all add: discoverAgents_def example_discovery_def card_entry_def res_ok_def
      upsert_agent_def Let_def example_defs auto_prompt_def digit_def)

theorem discovery_idempotent_witness:
  "fetched (example_discovery [card_entry ''Analyst'', card_entry ''Builder'', card_entry ''Builder'']
       ''2026-01-01T00:01:00.000Z'')
     = fetched (example_discovery [card_entry ''Analyst'', card_entry ''Builder'', card_entry ''Builder'']
       ''2026-01-01T00:00:00.000Z'')
   \<and> length (agents (discoverAgents
        (example_discovery [card_entry ''Analyst'', card_entry ''Builder'', card_entry ''Builder'']
           ''2026-01-01T00:01:00.000Z'')
        (discoverAgents
          (example_discovery [card_entry ''Analyst'', card_entry ''Builder'', card_entry ''Builder'']
             ''2026-01-01T00:00:00.000Z'') example_state))) = 2
   \<and> agentsSynced (discoveryStatus (discoverAgents
        (example_discovery [card_entry ''Analyst'', card_entry ''Builder'', card_entry ''Builder'']
           ''2026-01-01T00:01:00.000Z'')
        (discoverAgents
          (example_discovery [card_entry ''Analyst'', card_entry ''Builder'', card_entry ''Builder'']
             ''2026-01-01T00:00:00.000Z'') example_state)))
       = [''Analyst'', ''Builder'', ''Builder'']"
proof -
  let ?es = "[card_entry ''Analyst'', card_entry ''Builder'', card_entry ''Builder'']"
  have same: "fetched (example_discovery ?es ''2026-01-01T00:01:00.000Z'')
      = fetched (example_discovery ?es ''2026-01-01T00:00:00.000Z'')"
    by (simp add: example_discovery_def)
  from discovery_idempotent[OF same, of example_state] example_discovery_run same
  show ?thesis by simp
qed

lemma synced_status:
  "discoveryStatus synced_state =
     \<lparr>lastRun = Some ''2026-01-01T00:00:00.000Z'', agentsDiscovered = 1,
      agentsSynced = [''Analyst''], error = None\<rparr>"
  "agents synced_state = [agent_A]"
  by (simp_all add: synced_state_def discoverAgents_def example_discovery_def card_entry_def
      res_ok_def upsert_agent_def Let_def example_defs)

text \<open>
  C5 fails for a run that throws inside the upsert loop. After a successful run that
  synced one agent, the registry answers with two entries of which the second is null:
  the run has already overwritten \<open>agentsDiscovered\<close> and emptied \<open>agentsSynced\<close> when
  reading the null entry throws, so the status keeps the old \<open>lastRun\<close> beside the new
  count, the partial list and the error.
\<close>

theorem discovery_failure_in_loop:
  "discoveryStatus synced_state =
     \<lparr>lastRun = Some ''2026-01-01T00:00:00.000Z'', agentsDiscovered = 1,
      agentsSynced = [''Analyst''], error = None\<rparr>
   \<and> lastRun (discoveryStatus (discoverAgents
        (example_discovery [card_entry ''Builder'', JNull] ''2026-01-01T00:01:00.000Z'')
        synced_state)) = Some ''2026-01-01T00:00:00.000Z''
   \<and> agentsDiscovered (discoveryStatus (discoverAgents
        (example_discovery [card_entry ''Builder'', JNull] ''2026-01-01T00:01:00.000Z'')
        synced_state)) = 2
   \<and> agentsSynced (discoveryStatus (discoverAgents
        (example_discovery [card_entry ''Builder'', JNull] ''2026-01-01T00:01:00.000Z'')
        synced_state)) = [''Builder'']
   \<and> error (discoveryStatus (discoverAgents
        (example_discovery [card_entry ''Builder'', JNull] ''2026-01-01T00:01:00.000Z'')
        synced_state)) \<noteq> None"
  by (simp add: synced_status discoverAgents_def example_discovery_def card_entry_def
      res_ok_def upsert_agent_def Let_def discovery_catch_def agent_A_def)

theorem discovery_failure_in_loop_witness:
  "lastRun (discoveryStatus (discoverAgents
        (example_discovery [card_entry ''Builder'', JNull] ''2026-01-01T00:01:00.000Z'')
        synced_state)) = lastRun (discoveryStatus synced_state)
   \<and> agentsDiscovered (discoveryStatus (discoverAgents
        (example_discovery [card_entry ''Builder'', JNull] ''2026-01-01T00:01:00.000Z'')
        synced_state)) \<noteq> agentsDiscovered (discoveryStatus synced_state)
   \<and> agentsSynced (discoveryStatus (discoverAgents
        (example_discovery [card_entry ''Builder'', JNull] ''2026-01-01T00:01:00.000Z'')
        synced_state)) \<noteq> agentsSynced (discoveryStatus synced_state)"
  using discovery_failure_in_loop by simp

section \<open>Properties of the trace correlator\<close>

lemma upd_keys:
  "map fst (map (\<lambda>(k, v). if k = t then (k, v @ [s]) else (k, v)) m) = map fst m"
  by (induction m) auto

lemma upd_absent:
  "t \<notin> fst ` set m \<Longrightarrow> map (\<lambda>(k, v). if k = t then (k, v @ [s]) else (k, v)) m = m"
  by (induction m) auto

lemma group_span_step:
  assumes d: "distinct (map fst m)"
    and k: "fst ` set m = traceId ` set pre"
    and v: "\<forall>(k, v) \<in> set m. v = filter (\<lambda>x. traceId x = k) pre"
  shows "distinct (map fst (group_span m s))
    \<and> fst ` set (group_span m s) = traceId ` set (pre @ [s])
    \<and> (\<forall>(k, v) \<in> set (group_span m s). v = filter (\<lambda>x. traceId x = k) (pre @ [s]))"
proof (cases "map_of m (traceId s)")
  case None
  then have absent: "traceId s \<notin> fst ` set m"
    by (simp add: map_of_eq_None_iff)
  then have g: "group_span m s = m @ [(traceId s, [s])]"
    using None by (simp add: group_span_def upd_absent)
  from absent k have "filter (\<lambda>x. traceId x = traceId s) pre = []"
    unfolding filter_empty_conv by (metis imageI)
  then have fresh: "filter (\<lambda>x. traceId x = traceId s) (pre @ [s]) = [s]"
    by simp
  have old: "v' = filter (\<lambda>x. traceId x = k') (pre @ [s])" if "(k', v') \<in> set m" for k' v'
  proof -
    from that v have "v' = filter (\<lambda>x. traceId x = k') pre" by blast
    moreover from that absent have "k' \<noteq> traceId s" by force
    ultimately show ?thesis by simp
  qed
  have "distinct (map fst (m @ [(traceId s, [s])]))"
    using d absent by simp
  moreover have "fst ` set (m @ [(traceId s, [s])]) = traceId ` set (pre @ [s])"
    using k by simp
  moreover have "\<forall>(k', v') \<in> set (m @ [(traceId s, [s])]).
      v' = filter (\<lambda>x. traceId x = k') (pre @ [s])"
    using old fresh by auto
  ultimately show ?thesis
    unfolding g by blast
next
  case (Some v0)
  then have present: "traceId s \<in> fst ` set m"
    by (metis map_of_eq_None_iff option.distinct(1))
  from Some have g: "group_span m s = map (\<lambda>(k, v). if k = traceId s then (k, v @ [s]) else (k, v)) m"
    by (simp add: group_span_def)
  have keys: "map fst (group_span m s) = map fst m"
    unfolding g by (rule upd_keys)
  then have kset: "fst ` set (group_span m s) = fst ` set m"
    by (metis set_map)
  have each: "v' = filter (\<lambda>x. traceId x = k') pre" if "(k', v') \<in> set m" for k' v'
    using that v by blast
  have vals: "\<forall>(k, v) \<in> set (group_span m s). v = filter (\<lambda>x. traceId x = k) (pre @ [s])"
    unfolding g by (auto split: if_splits dest: each)
  from d keys kset k present vals show ?thesis
    by auto
qed

lemma group_spans_from:
  "distinct (map fst m) \<Longrightarrow> fst ` set m = traceId ` set pre \<Longrightarrow>
   \<forall>(k, v) \<in> set m. v = filter (\<lambda>x. traceId x = k) pre \<Longrightarrow>
   distinct (map fst (foldl group_span m xs))
    \<and> fst ` set (foldl group_span m xs) = traceId ` set (pre @ xs)
    \<and> (\<forall>(k, v) \<in> set (foldl group_span m xs). v = filter (\<lambda>x. traceId x = k) (pre @ xs))"
proof (induction xs arbitrary: m pre)
  case Nil
  then show ?case by simp
next
  case (Cons x xs)
  from group_span_step[OF Cons.prems, of x] have
    "distinct (map fst (group_span m x))"
    "fst ` set (group_span m x) = traceId ` set (pre @ [x])"
    "\<forall>(k, v) \<in> set (group_span m x). v = filter (\<lambda>y. traceId y = k) (pre @ [x])"
    by blast+
  from Cons.IH[OF this] show ?case by simp
qed

lemma group_spans_groups:
  assumes "(k, v) \<in> set (group_spans w)"
  shows "v = filter (\<lambda>x. traceId x = k) w \<and> v \<noteq> []"
proof -
  from group_spans_from[of "[]" "[]" w] have
    keys: "fst ` set (group_spans w) = traceId ` set w" and
    vals: "\<forall>(k, v) \<in> set (group_spans w). v = filter (\<lambda>x. traceId x = k) w"
    by (simp_all add: group_spans_def)
  from vals assms have eq: "v = filter (\<lambda>x. traceId x = k) w" by blast
  from assms have "k \<in> fst ` set (group_spans w)" by force
  with keys obtain x where "x \<in> set w" "traceId x = k" by auto
  then have "filter (\<lambda>x. traceId x = k) w \<noteq> []"
    by (auto simp: filter_empty_conv)
  with eq show ?thesis by simp
qed

lemma no_parent_iff: "no_parent p \<longleftrightarrow> p = None \<or> p = Some []"
  by (cases p) simp_all

lemma summarise_group:
  assumes "ss \<noteq> []"
  shows "summarise (tid, ss) = Inr (summary_of (tid, ss))"
  using assms
  by (cases ss)
     (auto simp: summarise_def summary_of_def find_root_def no_parent_iff Let_def list_ex_iff
        split: option.splits)

lemma collect_map:
  "\<forall>x \<in> set xs. f x = Inr (g x) \<Longrightarrow> collect (map f xs) = Inr (map g xs)"
  by (induction xs) simp_all

lemma slice0_subset: "set (slice0 e xs) \<subseteq> set xs"
  by (auto simp: slice0_def dest: in_set_takeD)


lemma trace_summaries_eq:
  "trace_summaries limit w = Inr (map summary_of (slice0 limit (group_spans w)))"
proof -
  have "\<forall>g \<in> set (slice0 limit (group_spans w)). summarise g = Inr (summary_of g)"
  proof
    fix g assume "g \<in> set (slice0 limit (group_spans w))"
    then have "g \<in> set (group_spans w)"
      using slice0_subset[of limit "group_spans w"] by (rule set_mp[rotated])
    then have "(fst g, snd g) \<in> set (group_spans w)"
      by simp
    from group_spans_groups[OF this] have "snd g \<noteq> []"
      by (rule conjunct2)
    from summarise_group[OF this, of "fst g"] show "summarise g = Inr (summary_of g)"
      by simp
  qed
  from collect_map[of "slice0 limit (group_spans w)" summarise summary_of, OF this]
  show ?thesis
    by (simp add: trace_summaries_def)
qed

text \<open>
  C9, as the code has it. The handler never fails on a fetched window, and for every
  summary it returns, with the window's spans of that trace in query order: the root is
  the first span whose \<open>parentId\<close> is null or the empty string (both are falsy), else
  the first span; \<open>rootService\<close>, \<open>rootOperation\<close> and \<open>startedAt\<close> are the root's;
  \<open>totalDurationMs\<close> is the root's own \<open>durationMs\<close>; \<open>status\<close> is ERROR exactly when
  some span of the trace has status ERROR, and OK otherwise.
\<close>

theorem trace_summary_root_status:
  "\<exists>found. trace_summaries limit w = Inr found
     \<and> (\<forall>t \<in> set found.
          (let ss = filter (\<lambda>s. traceId s = ts_traceId t) w;
               rt = (case find (\<lambda>s. parentId s = None \<or> parentId s = Some []) ss of
                       Some r \<Rightarrow> r | None \<Rightarrow> hd ss)
           in ss \<noteq> []
              \<and> rootService t = service rt \<and> rootOperation t = operation rt
              \<and> ts_startedAt t = startedAt rt
              \<and> totalDurationMs t = durationMs rt
              \<and> (ts_status t = ''ERROR'' \<longleftrightarrow> (\<exists>s \<in> set ss. span_status s = ''ERROR''))
              \<and> (ts_status t = ''ERROR'' \<or> ts_status t = ''OK'')))"
proof (intro exI conjI ballI)
  show "trace_summaries limit w = Inr (map summary_of (slice0 limit (group_spans w)))"
    by (rule trace_summaries_eq)
next
  fix t assume "t \<in> set (map summary_of (slice0 limit (group_spans w)))"
  then obtain g where g: "g \<in> set (slice0 limit (group_spans w))" and t: "t = summary_of g"
    by auto
  from g have "g \<in> set (group_spans w)"
    using slice0_subset[of limit "group_spans w"] by (rule set_mp[rotated])
  then have "(fst g, snd g) \<in> set (group_spans w)"
    by simp
  from group_spans_groups[OF this]
  have grp: "snd g = filter (\<lambda>x. traceId x = fst g) w" "snd g \<noteq> []"
    by blast+
  have tid: "ts_traceId t = fst g"
    unfolding t by (simp add: summary_of_def split_beta Let_def)
  from grp show "let ss = filter (\<lambda>s. traceId s = ts_traceId t) w;
               rt = (case find (\<lambda>s. parentId s = None \<or> parentId s = Some []) ss of
                       Some r \<Rightarrow> r | None \<Rightarrow> hd ss)
           in ss \<noteq> []
              \<and> rootService t = service rt \<and> rootOperation t = operation rt
              \<and> ts_startedAt t = startedAt rt
              \<and> totalDurationMs t = durationMs rt
              \<and> (ts_status t = ''ERROR'' \<longleftrightarrow> (\<exists>s \<in> set ss. span_status s = ''ERROR''))
              \<and> (ts_status t = ''ERROR'' \<or> ts_status t = ''OK'')"
    unfolding tid unfolding t by (simp add: summary_of_def split_beta Let_def)
qed

lemma example_summaries:
  "map (\<lambda>t. (ts_traceId t, rootOperation t, totalDurationMs t, ts_status t))
     (case trace_summaries 20 example_window of Inr ts \<Rightarrow> ts | Inl e \<Rightarrow> [])
   = [(''T'', ''first'', 5, ''ERROR''), (''U'', ''third'', 7, ''OK'')]"
  by (simp add: trace_summaries_def example_window_def span_at_def group_spans_def
      group_span_def slice0_def summarise_def find_root_def Let_def)

theorem trace_summary_root_status_witness:
  "\<exists>found. trace_summaries 20 example_window = Inr found
     \<and> hd found \<in> set found
     \<and> ts_traceId (hd found) = ''T''
     \<and> ts_status (hd found) = ''ERROR''
     \<and> (\<exists>s \<in> set (filter (\<lambda>s. traceId s = ''T'') example_window). span_status s = ''ERROR'')"
proof -
  from trace_summary_root_status[of 20 example_window] obtain found where
    ok: "trace_summaries 20 example_window = Inr found" and
    each: "\<forall>t \<in> set found.
          (let ss = filter (\<lambda>s. traceId s = ts_traceId t) example_window;
               rt = (case find (\<lambda>s. parentId s = None \<or> parentId s = Some []) ss of
                       Some r \<Rightarrow> r | None \<Rightarrow> hd ss)
           in ss \<noteq> []
              \<and> rootService t = service rt \<and> rootOperation t = operation rt
              \<and> ts_startedAt t = startedAt rt
              \<and> totalDurationMs t = durationMs rt
              \<and> (ts_status t = ''ERROR'' \<longleftrightarrow> (\<exists>s \<in> set ss. span_status s = ''ERROR''))
              \<and> (ts_status t = ''ERROR'' \<or> ts_status t = ''OK''))"
    by blast
  from example_summaries ok have
    shape: "map (\<lambda>t. (ts_traceId t, rootOperation t, totalDurationMs t, ts_status t)) found
       = [(''T'', ''first'', 5, ''ERROR''), (''U'', ''third'', 7, ''OK'')]"
    by simp
  then obtain t1 rest where found: "found = t1 # rest"
    by (cases found) simp_all
  with shape have first: "ts_traceId t1 = ''T''" "ts_status t1 = ''ERROR''"
    by simp_all
  from each found have
    "ts_status t1 = ''ERROR'' \<longleftrightarrow>
       (\<exists>s \<in> set (filter (\<lambda>s. traceId s = ts_traceId t1) example_window). span_status s = ''ERROR'')"
    by (simp add: Let_def)
  with first have
    "\<exists>s \<in> set (filter (\<lambda>s. traceId s = ''T'') example_window). span_status s = ''ERROR''"
    by simp
  with ok found first show ?thesis
    by simp
qed

text \<open>
  The claim as stated fails where a span has an empty parent id: in trace \<open>T\<close> the first
  span with a null \<open>parentId\<close> is \<open>s2\<close> (operation \<open>second\<close>, 40 ms), and the summary takes
  \<open>s1\<close>, whose parent id is the empty string, as the root (operation \<open>first\<close>, 5 ms).
\<close>

theorem root_empty_parent_counterexample:
  "find (\<lambda>s. parentId s = None) (filter (\<lambda>s. traceId s = ''T'') example_window)
     = Some (span_at ''s2'' ''T'' None ''second'' ''ERROR'' 40)
   \<and> operation (span_at ''s2'' ''T'' None ''second'' ''ERROR'' 40) = ''second''
   \<and> durationMs (span_at ''s2'' ''T'' None ''second'' ''ERROR'' 40) = 40
   \<and> map (\<lambda>t. (ts_traceId t, rootOperation t, totalDurationMs t))
        (case trace_summaries 20 example_window of Inr ts \<Rightarrow> ts | Inl e \<Rightarrow> [])
       = [(''T'', ''first'', 5), (''U'', ''third'', 7)]"
  by (simp add: trace_summaries_def example_window_def span_at_def group_spans_def
      group_span_def slice0_def summarise_def find_root_def Let_def)

end
